theory Spec2Isabelle
  imports Main
begin

section \<open>Go strings and the library functions the program calls\<close>

text \<open>
  A Go string is a sequence of bytes, here a \<open>char list\<close>. The program (\<open>main.go\<close>) is
  glue around library calls, so the pure string functions of the Go standard library that
  decide file names are written out below for Unix paths (separator \<open>/\<close>, no volume
  names), following the library's documented behaviour. The libraries that touch the
  file system or pixel data are parameters of the model (record \<open>lib\<close> further down).
\<close>

type_synonym path = string
type_synonym bytes = string
type_synonym cause = string

subsection \<open>Package strings\<close>

definition HasSuffix :: "string \<Rightarrow> string \<Rightarrow> bool" where
  "HasSuffix s suffix =
     (length suffix \<le> length s \<and> drop (length s - length suffix) s = suffix)"

definition TrimSuffix :: "string \<Rightarrow> string \<Rightarrow> string" where
  "TrimSuffix s suffix =
     (if HasSuffix s suffix then take (length s - length suffix) s else s)"

text \<open>
  \<open>strings.ToLower\<close> has a fast path for strings whose bytes are all below
  \<open>utf8.RuneSelf = 0x80\<close>: each byte in \<open>A..Z\<close> is moved to \<open>a..z\<close>. Any other
  string goes through \<open>strings.Map(unicode.ToLower, s)\<close>, which depends on the Unicode
  tables and is the parameter \<open>uni\<close>.
\<close>

definition isASCII :: "char \<Rightarrow> bool" where
  "isASCII c = (\<not> digit7 c)"

definition lowerByte :: "char \<Rightarrow> char" where
  "lowerByte c =
     (case map_of (zip ''ABCDEFGHIJKLMNOPQRSTUVWXYZ'' ''abcdefghijklmnopqrstuvwxyz'') c of
        Some l \<Rightarrow> l
      | None \<Rightarrow> c)"

definition ToLower :: "(string \<Rightarrow> string) \<Rightarrow> string \<Rightarrow> string" where
  "ToLower uni s = (if list_all isASCII s then map lowerByte s else uni s)"

subsection \<open>Package path/filepath\<close>

definition isSep :: "char \<Rightarrow> bool" where
  "isSep c = (c = CHR ''/'')"

text \<open>
  \<open>filepath.Ext\<close> walks back from the end of the path, stops at a separator, and
  returns the suffix that starts at the first dot it meets.
\<close>

fun extScan :: "string \<Rightarrow> string \<Rightarrow> string" where
  "extScan [] acc = []"
| "extScan (c # r) acc =
     (if isSep c then [] else if c = CHR ''.'' then c # acc else extScan r (c # acc))"

definition Ext :: "path \<Rightarrow> string" where
  "Ext p = extScan (rev p) []"

text \<open>
  \<open>filepath.Base\<close>: the last element of the path, trailing separators removed first;
  \<open>.\<close> for the empty path and \<open>/\<close> for a path of separators only.
\<close>

definition Base :: "path \<Rightarrow> string" where
  "Base p =
     (if p = [] then ''.''
      else let e = rev (takeWhile (\<lambda>c. \<not> isSep c) (dropWhile isSep (rev p)))
           in if e = [] then ''/'' else e)"

fun splitSep :: "string \<Rightarrow> string list" where
  "splitSep [] = [[]]"
| "splitSep (c # cs) =
     (if isSep c then [] # splitSep cs
      else (case splitSep cs of [] \<Rightarrow> [[c]] | x # xs \<Rightarrow> (c # x) # xs))"

fun joinSep :: "string list \<Rightarrow> string" where
  "joinSep [] = []"
| "joinSep [x] = x"
| "joinSep (x # y # zs) = x @ ''/'' @ joinSep (y # zs)"

text \<open>
  \<open>filepath.Clean\<close> reads the path element by element. The elements kept so far are
  the list \<open>stk\<close>, newest first. An empty element and \<open>.\<close> are dropped; \<open>..\<close>
  removes the newest kept element unless there is none to remove (nothing kept, or only
  leading \<open>..\<close> elements), in which case a rooted path drops it and a relative path
  keeps it.
\<close>

definition cleanStep :: "bool \<Rightarrow> string list \<Rightarrow> string \<Rightarrow> string list" where
  "cleanStep rooted stk e =
     (if e = [] \<or> e = ''.'' then stk
      else if e = ''..'' then
        (case stk of
           [] \<Rightarrow> if rooted then [] else [e]
         | newest # below \<Rightarrow> if newest = ''..'' then e # stk else below)
      else e # stk)"

definition Clean :: "path \<Rightarrow> path" where
  "Clean p =
     (if p = [] then ''.''
      else let rooted = isSep (hd p);
               body = joinSep (rev (foldl (cleanStep rooted) [] (splitSep p)))
           in if rooted then CHR ''/'' # body
              else if body = [] then ''.'' else body)"

text \<open>\<open>filepath.Dir\<close>: everything up to the last separator, cleaned.\<close>

definition Dir :: "path \<Rightarrow> path" where
  "Dir p = Clean (rev (dropWhile (\<lambda>c. \<not> isSep c) (rev p)))"

text \<open>\<open>filepath.Join\<close>: leading empty elements are ignored, the rest is joined and cleaned.\<close>

definition Join :: "string list \<Rightarrow> path" where
  "Join elem =
     (case dropWhile (\<lambda>e. e = []) elem of
        [] \<Rightarrow> []
      | e # es \<Rightarrow> Clean (joinSep (e # es)))"

subsection \<open>Package fmt: the verb \<open>%d\<close>\<close>

function dec :: "nat \<Rightarrow> string" where
  "dec n = (if n < 10 then [''0123456789'' ! n] else dec (n div 10) @ [''0123456789'' ! (n mod 10)])"
  by pat_completeness auto
termination
  by (relation "measure (\<lambda>n. n)") auto

declare dec.simps [simp del]

definition fmt_d :: "int \<Rightarrow> string" where
  "fmt_d i = (if i < 0 then CHR ''-'' # dec (nat (- i)) else dec (nat i))"

section \<open>The size catalog\<close>

text \<open>
  \<open>type EmoteSize struct { Platform string; Name string; Width int; Height int }\<close>
  and the package-level table \<open>emoteSizes\<close>. The repository holds two versions of
  \<open>main.go\<close>; the table is the same in both.
\<close>

record EmoteSize =
  Platform :: string
  Name :: string
  Width :: int
  Height :: int

definition mkSize :: "string \<Rightarrow> string \<Rightarrow> int \<Rightarrow> int \<Rightarrow> EmoteSize" where
  "mkSize p n w h = \<lparr>Platform = p, Name = n, Width = w, Height = h\<rparr>"

definition emoteSizes :: "EmoteSize list" where
  "emoteSizes =
     [mkSize ''Discord'' ''Small'' 28 28,
      mkSize ''Discord'' ''Medium'' 32 32,
      mkSize ''Discord'' ''Large'' 48 48,
      mkSize ''Discord'' ''Animated'' 128 128,
      mkSize ''Twitch'' ''1.0'' 28 28,
      mkSize ''Twitch'' ''2.0'' 56 56,
      mkSize ''Twitch'' ''3.0'' 112 112,
      mkSize ''7TV'' ''1x'' 32 32,
      mkSize ''7TV'' ''2x'' 64 64,
      mkSize ''7TV'' ''3x'' 96 96,
      mkSize ''7TV'' ''4x'' 128 128]"

section \<open>The environment: file system and image libraries\<close>

text \<open>
  Everything the program does to the outside world goes through \<open>os.Open\<close>,
  \<open>os.MkdirAll\<close> and \<open>imaging.Save\<close>. The state threaded through the model is the
  list of the modifying calls made so far, each with the result it returned; what a call
  returns is decided by the environment from that history. The program has no call that
  removes a file or a directory.
\<close>

datatype 'img call =
    MkdirAll path nat "cause option"
  | Save 'img path "cause option"

type_synonym 'img trace = "'img call list"

datatype Anchor = Center | TopLeft | Top | TopRight | Left | Right | BottomLeft | Bottom | BottomRight

datatype ResampleFilter = NearestNeighbor | Box | Linear | CatmullRom | Lanczos

text \<open>
  The library functions that are not written out: the Unicode part of
  \<open>strings.ToLower\<close>, reading a file, the format decoders, \<open>imaging.Fill\<close>,
  \<open>os.MkdirAll\<close>, \<open>imaging.Save\<close> and fyne's resource loader. An opened file is
  taken as its bytes; a returned Go \<open>error\<close> is its message, \<open>None\<close> is \<open>nil\<close>.

  A GIF file is a header followed by image blocks and a trailer. For the bytes of a file,
  \<open>gif_stream\<close> gives the error of a bad header, or else the image blocks in the order
  of the stream, each as the image it decodes to or the error its decoding meets.

  The first version of \<open>main.go\<close> imports \<open>golang.org/x/image/webp\<close> without using
  it, which the Go compiler refuses. \<open>webp_kept\<close> says how that is repaired: kept as a
  blank import (true), or dropped (false).
\<close>

record 'img lib =
  unicode_ToLower :: "string \<Rightarrow> string"
  os_Open :: "'img trace \<Rightarrow> path \<Rightarrow> cause + bytes"
  jpeg_Decode :: "bytes \<Rightarrow> cause + 'img"
  png_Decode :: "bytes \<Rightarrow> cause + 'img"
  gif_stream :: "bytes \<Rightarrow> cause + (cause + 'img) list"
  webp_Decode :: "bytes \<Rightarrow> cause + 'img"
  bmp_Decode :: "bytes \<Rightarrow> cause + 'img"
  tiff_Decode :: "bytes \<Rightarrow> cause + 'img"
  webp_kept :: bool
  imaging_Fill :: "'img \<Rightarrow> int \<Rightarrow> int \<Rightarrow> Anchor \<Rightarrow> ResampleFilter \<Rightarrow> 'img"
  os_MkdirAll :: "'img trace \<Rightarrow> path \<Rightarrow> nat \<Rightarrow> cause option"
  imaging_Save :: "'img trace \<Rightarrow> 'img \<Rightarrow> path \<Rightarrow> cause option"
  fyne_LoadResourceFromPath :: "'img trace \<Rightarrow> path \<Rightarrow> cause + bytes"

subsection \<open>Package image/gif: \<open>gif.Decode\<close>\<close>

text \<open>
  \<open>gif.Decode\<close> reads the header and then the stream up to the first image block,
  whose image it returns; it reads nothing after that block. A stream that reaches its
  trailer without an image block is an error.
\<close>

definition gif_Decode :: "'img lib \<Rightarrow> bytes \<Rightarrow> cause + 'img" where
  "gif_Decode lib b =
     (case gif_stream lib b of
        Inl c \<Rightarrow> Inl c
      | Inr [] \<Rightarrow> Inl ''gif: missing image data''
      | Inr (frame # rest) \<Rightarrow> frame)"

subsection \<open>Package image: \<open>image.Decode\<close>\<close>

text \<open>
  A package that decodes a format registers it, with its magic strings, when the program
  starts; in a magic string \<open>?\<close> matches any byte. The program links
  \<open>image/gif\<close>, \<open>image/jpeg\<close> and \<open>image/png\<close> (imported by \<open>main.go\<close>),
  \<open>golang.org/x/image/bmp\<close> and \<open>golang.org/x/image/tiff\<close> (imported by
  \<open>github.com/disintegration/imaging\<close>, which \<open>main.go\<close> imports), and
  \<open>golang.org/x/image/webp\<close>: always in the second version, which calls
  \<open>webp.Decode\<close>, and in the first version when \<open>webp_kept\<close> holds.
  \<open>image.Decode\<close> peeks at the first bytes, takes the first registered format with a
  magic string that matches, and calls its decoder; with no match it returns
  \<open>image.ErrFormat\<close>. No two of the magic strings match the same bytes, so the order of
  registration does not matter.
\<close>

datatype variant = Baseline | Extended

datatype format = GIF | JPEG | PNG | BMP | TIFF | WEBP

fun magics :: "format \<Rightarrow> string list" where
  "magics GIF = [''GIF8?a'']"
| "magics JPEG = [[CHR 0xFF, CHR 0xD8]]"
| "magics PNG =
     [[CHR 0x89, CHR ''P'', CHR ''N'', CHR ''G'', CHR 0x0D, CHR 0x0A, CHR 0x1A, CHR 0x0A]]"
| "magics BMP = [''BM????'' @ [CHR 0x00, CHR 0x00, CHR 0x00, CHR 0x00]]"
| "magics TIFF = [''II'' @ [CHR 0x2A, CHR 0x00], ''MM'' @ [CHR 0x00, CHR 0x2A]]"
| "magics WEBP = [''RIFF????WEBPVP8'']"

definition match :: "string \<Rightarrow> bytes \<Rightarrow> bool" where
  "match magic b =
     (length magic = length b \<and> list_all2 (\<lambda>m c. m = c \<or> m = CHR ''?'') magic b)"

definition hasMagic :: "format \<Rightarrow> bytes \<Rightarrow> bool" where
  "hasMagic f b = list_ex (\<lambda>magic. match magic (take (length magic) b)) (magics f)"

definition registered :: "variant \<Rightarrow> 'img lib \<Rightarrow> format list" where
  "registered v lib =
     [GIF, JPEG, PNG, BMP, TIFF] @ (if v = Extended \<or> webp_kept lib then [WEBP] else [])"

definition sniff :: "variant \<Rightarrow> 'img lib \<Rightarrow> bytes \<Rightarrow> format option" where
  "sniff v lib b = List.find (\<lambda>f. hasMagic f b) (registered v lib)"

fun decoderOf :: "'img lib \<Rightarrow> format \<Rightarrow> bytes \<Rightarrow> cause + 'img" where
  "decoderOf lib GIF = gif_Decode lib"
| "decoderOf lib JPEG = jpeg_Decode lib"
| "decoderOf lib PNG = png_Decode lib"
| "decoderOf lib BMP = bmp_Decode lib"
| "decoderOf lib TIFF = tiff_Decode lib"
| "decoderOf lib WEBP = webp_Decode lib"

definition ErrFormat :: cause where
  "ErrFormat = ''image: unknown format''"

definition image_Decode :: "variant \<Rightarrow> 'img lib \<Rightarrow> bytes \<Rightarrow> cause + 'img" where
  "image_Decode v lib b =
     (case sniff v lib b of None \<Rightarrow> Inl ErrFormat | Some f \<Rightarrow> decoderOf lib f b)"

section \<open>The program\<close>

text \<open>
  The repository holds two versions of \<open>main.go\<close>. They differ in the extensions that
  \<open>selectFile\<close> accepts, in the \<open>switch\<close> of \<open>processImage\<close>, and in the preview that
  only the first version loads; \<open>variant\<close> above names them.
\<close>

datatype dialog = ShowError string | ShowInformation string string

text \<open>
  \<open>type App struct\<close>: the label and the button are their text and enabled flag, the
  window is the list of dialogs shown on it, the preview icon is its resource.
\<close>

record App =
  window :: "dialog list"
  selectedFile :: string
  statusLabel :: string
  convertBtn :: bool
  previewImage :: "bytes option"

text \<open>The errors \<open>processImage\<close> builds with \<open>fmt.Errorf\<close>, and their \<open>Error()\<close> text.\<close>

datatype error =
    OpenError cause
  | DecodeError cause
  | MkdirError cause
  | SaveError string cause

fun errorText :: "error \<Rightarrow> string" where
  "errorText (OpenError c) = ''failed to open file: '' @ c"
| "errorText (DecodeError c) = ''failed to decode image: '' @ c"
| "errorText (MkdirError c) = ''failed to create output directory: '' @ c"
| "errorText (SaveError filename c) = ''failed to save '' @ filename @ '': '' @ c"

subsection \<open>\<open>showError\<close>, \<open>loadPreview\<close>, \<open>selectFile\<close>\<close>

definition showError :: "string \<Rightarrow> string \<Rightarrow> App \<Rightarrow> App" where
  "showError title err a =
     a\<lparr>window := window a @ [ShowError err], statusLabel := ''Error: '' @ err\<rparr>"

definition loadPreview :: "'img lib \<Rightarrow> 'img trace \<Rightarrow> App \<Rightarrow> App" where
  "loadPreview lib t a =
     (if selectedFile a = [] then a
      else case fyne_LoadResourceFromPath lib t (selectedFile a) of
             Inl err \<Rightarrow>
               a\<lparr>statusLabel := ''Selected file (preview failed): '' @ Base (selectedFile a)\<rparr>
           | Inr resource \<Rightarrow> a\<lparr>previewImage := Some resource\<rparr>)"

text \<open>The Go map \<open>validExts\<close>; a key that is absent reads as \<open>false\<close>.\<close>

fun validExts :: "variant \<Rightarrow> (string \<times> bool) list" where
  "validExts Baseline =
     [(''.jpg'', True), (''.jpeg'', True), (''.png'', True), (''.gif'', True)]"
| "validExts Extended =
     [(''.jpg'', True), (''.jpeg'', True), (''.png'', True), (''.gif'', True),
      (''.webp'', True), (''.webm'', True)]"

definition index :: "(string \<times> bool) list \<Rightarrow> string \<Rightarrow> bool" where
  "index m k = (case map_of m k of None \<Rightarrow> False | Some b \<Rightarrow> b)"

fun invalidType :: "variant \<Rightarrow> string" where
  "invalidType Baseline = ''please select a JPEG, PNG, or GIF file''"
| "invalidType Extended = ''please select a JPEG, PNG, GIF, WebP, or WebM file''"

text \<open>What the file dialog hands to the callback of \<open>selectFile\<close>.\<close>

datatype picked = DialogError cause | Cancelled | Chosen path

fun selectFile :: "variant \<Rightarrow> 'img lib \<Rightarrow> 'img trace \<Rightarrow> App \<Rightarrow> picked \<Rightarrow> App" where
  "selectFile v lib t a (DialogError err) = showError ''Error opening file'' err a"
| "selectFile v lib t a Cancelled = a"
| "selectFile v lib t a (Chosen uriPath) =
     (let ext = ToLower (unicode_ToLower lib) (Ext uriPath)
      in if \<not> index (validExts v) ext
         then showError ''Invalid file type'' (invalidType v) a
         else let a1 = a\<lparr>selectedFile := uriPath,
                          statusLabel := ''Selected: '' @ Base uriPath\<rparr>;
                  a2 = (case v of Baseline \<Rightarrow> loadPreview lib t a1 | Extended \<Rightarrow> a1)
              in a2\<lparr>convertBtn := True\<rparr>)"

subsection \<open>\<open>processImage\<close>\<close>

text \<open>The \<open>switch ext\<close> of each version.\<close>

fun decodeImage :: "variant \<Rightarrow> 'img lib \<Rightarrow> string \<Rightarrow> bytes \<Rightarrow> cause + 'img" where
  "decodeImage Baseline lib ext file =
     (if ext = ''.jpg'' \<or> ext = ''.jpeg'' then jpeg_Decode lib file
      else if ext = ''.png'' then png_Decode lib file
      else if ext = ''.gif'' then gif_Decode lib file
      else image_Decode Baseline lib file)"
| "decodeImage Extended lib ext file =
     (if ext = ''.jpg'' \<or> ext = ''.jpeg'' then jpeg_Decode lib file
      else if ext = ''.png'' then png_Decode lib file
      else if ext = ''.gif'' then gif_Decode lib file
      else if ext = ''.webp'' then webp_Decode lib file
      else if ext = ''.webm'' then image_Decode Extended lib file
      else image_Decode Extended lib file)"

definition baseFilename :: "path \<Rightarrow> string" where
  "baseFilename p = TrimSuffix (Base p) (Ext p)"

definition bundleDir :: "path \<Rightarrow> path" where
  "bundleDir p = Join [Dir p, baseFilename p @ ''_emote_bundle'']"

text \<open>\<open>fmt.Sprintf("%s-%s-%s-%dx%d.png", ...)\<close>\<close>

definition filename :: "string \<Rightarrow> EmoteSize \<Rightarrow> string" where
  "filename base sz =
     base @ ''-'' @ Platform sz @ ''-'' @ Name sz @ ''-'' @
     fmt_d (Width sz) @ ''x'' @ fmt_d (Height sz) @ ''.png''"

definition outputPath :: "path \<Rightarrow> EmoteSize \<Rightarrow> path" where
  "outputPath p sz = Join [bundleDir p, filename (baseFilename p) sz]"

definition resized :: "'img lib \<Rightarrow> 'img \<Rightarrow> EmoteSize \<Rightarrow> 'img" where
  "resized lib img sz = imaging_Fill lib img (Width sz) (Height sz) Center Lanczos"

text \<open>The loop \<open>for _, size := range emoteSizes\<close>, over the entries still to do.\<close>

fun convertSizes ::
  "'img lib \<Rightarrow> path \<Rightarrow> 'img \<Rightarrow> EmoteSize list \<Rightarrow> 'img trace \<Rightarrow> 'img trace \<times> error option" where
  "convertSizes lib p img [] t = (t, None)"
| "convertSizes lib p img (sz # rest) t =
     (let r = resized lib img sz;
          err = imaging_Save lib t r (outputPath p sz);
          t' = t @ [Save r (outputPath p sz) err]
      in case err of
           Some c \<Rightarrow> (t', Some (SaveError (filename (baseFilename p) sz) c))
         | None \<Rightarrow> convertSizes lib p img rest t')"

text \<open>
  \<open>processImage\<close> from \<open>os.MkdirAll(bundleDir, 0755)\<close> on, for a decoded image;
  octal \<open>0755\<close> is 493.
\<close>

definition perm :: nat where
  "perm = 493"

definition writeBundle ::
  "'img lib \<Rightarrow> path \<Rightarrow> 'img \<Rightarrow> 'img trace \<Rightarrow> 'img trace \<times> error option" where
  "writeBundle lib p img t =
     (let err = os_MkdirAll lib t (bundleDir p) perm;
          t' = t @ [MkdirAll (bundleDir p) perm err]
      in case err of
           Some c \<Rightarrow> (t', Some (MkdirError c))
         | None \<Rightarrow> convertSizes lib p img emoteSizes t')"

definition processImage ::
  "variant \<Rightarrow> 'img lib \<Rightarrow> App \<Rightarrow> 'img trace \<Rightarrow> 'img trace \<times> error option" where
  "processImage v lib a t =
     (case os_Open lib t (selectedFile a) of
        Inl c \<Rightarrow> (t, Some (OpenError c))
      | Inr file \<Rightarrow>
          (case decodeImage v lib (ToLower (unicode_ToLower lib) (Ext (selectedFile a))) file of
             Inl c \<Rightarrow> (t, Some (DecodeError c))
           | Inr img \<Rightarrow> writeBundle lib (selectedFile a) img t))"

subsection \<open>\<open>convertAndSave\<close>\<close>

text \<open>
  The goroutine started by \<open>convertAndSave\<close> is the only one that runs
  \<open>processImage\<close>; the model runs it to its end.
\<close>

definition convertAndSave ::
  "variant \<Rightarrow> 'img lib \<Rightarrow> App \<times> 'img trace \<Rightarrow> App \<times> 'img trace" where
  "convertAndSave v lib s =
     (case s of (a, t) \<Rightarrow>
        if selectedFile a = [] then (a, t)
        else let a1 = a\<lparr>convertBtn := False, statusLabel := ''Converting images...''\<rparr>
             in case processImage v lib a1 t of
                  (t', Some err) \<Rightarrow>
                    ((showError ''Conversion failed'' (errorText err) a1)\<lparr>convertBtn := True\<rparr>, t')
                | (t', None) \<Rightarrow>
                    (a1\<lparr>statusLabel := ''Conversion completed successfully!'',
                        convertBtn := True,
                        window := window a1 @
                          [ShowInformation ''Success''
                             ''All emote sizes have been created and saved!'']\<rparr>, t'))"

subsection \<open>\<open>main\<close>: the initial \<open>App\<close>\<close>

definition newApp :: App where
  "newApp =
     \<lparr>window = [], selectedFile = [], statusLabel = ''No file selected'',
      convertBtn = False, previewImage = None\<rparr>"

section \<open>A small environment for the examples\<close>

text \<open>
  An environment to run the program in: the disk is a table from paths to bytes, a
  decoder accepts exactly the bytes that start with a magic string of its format, an
  image is the bytes it came from with the dimensions last asked for, a GIF has a good
  first image block and a damaged second one, the unused webp import of the first
  version is dropped, directories can always be created, and saving fails exactly on the
  paths listed in \<open>locked\<close>.
\<close>

type_synonym demo_img = "bytes \<times> int \<times> int"

definition demoDecode :: "format \<Rightarrow> bytes \<Rightarrow> cause + demo_img" where
  "demoDecode f b = (if hasMagic f b then Inr (b, 0, 0) else Inl ''invalid format'')"

definition demoRead :: "(path \<times> bytes) list \<Rightarrow> path \<Rightarrow> cause + bytes" where
  "demoRead disk p =
     (case map_of disk p of None \<Rightarrow> Inl ''no such file or directory'' | Some b \<Rightarrow> Inr b)"

definition demo :: "(path \<times> bytes) list \<Rightarrow> path list \<Rightarrow> demo_img lib" where
  "demo disk locked =
     \<lparr>unicode_ToLower = (\<lambda>s. s),
      os_Open = (\<lambda>t. demoRead disk),
      jpeg_Decode = demoDecode JPEG,
      png_Decode = demoDecode PNG,
      gif_stream =
        (\<lambda>b. if hasMagic GIF b then Inr [Inr (b, 0, 0), Inl ''gif: not enough image data'']
             else Inl ''gif: bad header''),
      webp_Decode = demoDecode WEBP,
      bmp_Decode = demoDecode BMP,
      tiff_Decode = demoDecode TIFF,
      webp_kept = False,
      imaging_Fill = (\<lambda>img w h anchor flt. (fst img, w, h)),
      os_MkdirAll = (\<lambda>t p m. None),
      imaging_Save = (\<lambda>t img q. if q \<in> set locked then Some ''permission denied'' else None),
      fyne_LoadResourceFromPath = (\<lambda>t. demoRead disk)\<rparr>"

definition pngBytes :: bytes where
  "pngBytes =
     [CHR 0x89, CHR ''P'', CHR ''N'', CHR ''G'', CHR 0x0D, CHR 0x0A, CHR 0x1A, CHR 0x0A] @ ''IHDR''"

definition webmBytes :: bytes where
  "webmBytes = [CHR 0x1A, CHR 0x45, CHR 0xDF, CHR 0xA3] @ ''webm''"

definition bmpBytes :: bytes where
  "bmpBytes = ''BM'' @ [CHR 0x46, CHR 0x00, CHR 0x00, CHR 0x00, CHR 0x00, CHR 0x00, CHR 0x00, CHR 0x00] @ ''pixels''"

definition gifBytes :: bytes where
  "gifBytes = ''GIF89a'' @ ''frames''"

definition garbage :: bytes where
  "garbage = ''not an image''"

section \<open>A file system\<close>

text \<open>
  To say what a second run meets, \<open>os.MkdirAll\<close> and \<open>imaging.Save\<close> are written out
  over a state of the file system, following the Go sources of \<open>os.MkdirAll\<close>,
  \<open>os.Create\<close> and \<open>imaging.Save\<close> and the POSIX calls below them. The state holds the
  directories and the regular files that exist, each under its cleaned path
  (\<open>.\<close> and \<open>/\<close> always exist), and a list \<open>denied\<close> of paths that the process may
  neither create nor open for writing. There are no links, the working directory does not
  change, and space never runs out. Mode bits are not kept: apart from \<open>denied\<close>, the
  process may write again what it created (the umask leaves the owner's write bit).
\<close>

record fsys =
  dirs :: "path list"
  files :: "(path \<times> bytes) list"
  denied :: "path list"

definition isDir :: "fsys \<Rightarrow> path \<Rightarrow> bool" where
  "isDir s k = (k = ''.'' \<or> k = ''/'' \<or> k \<in> set (dirs s))"

definition isFile :: "fsys \<Rightarrow> path \<Rightarrow> bool" where
  "isFile s k = (k \<in> set (map fst (files s)))"

definition ENOENT :: cause where
  "ENOENT = ''no such file or directory''"

text \<open>\<open>stat\<close> (the model has no links, so \<open>lstat\<close> is the same) and \<open>mkdir\<close>.\<close>

definition fs_Stat :: "fsys \<Rightarrow> path \<Rightarrow> cause + bool" where
  "fs_Stat s p =
     (if p = [] then Inl ENOENT
      else let k = Clean p
           in if isDir s k then Inr True else if isFile s k then Inr False else Inl ENOENT)"

definition fs_Mkdir :: "fsys \<Rightarrow> path \<Rightarrow> fsys \<times> cause option" where
  "fs_Mkdir s p =
     (if p = [] then (s, Some ENOENT)
      else let k = Clean p
           in if isDir s k \<or> isFile s k then (s, Some ''file exists'')
              else if \<not> isDir s (Dir k) then (s, Some ENOENT)
              else if k \<in> set (denied s) then (s, Some ''permission denied'')
              else (s\<lparr>dirs := k # dirs s\<rparr>, None))"

text \<open>
  \<open>os.MkdirAll\<close>: if the path is already a directory it does nothing and returns nil,
  and if it is a file it fails. Otherwise it creates the parent (the path up to its last
  element, found by skipping trailing separators and then the element), then calls
  \<open>mkdir\<close>, and forgives a failed \<open>mkdir\<close> when the directory is there after all.
\<close>

definition parentOf :: "path \<Rightarrow> path" where
  "parentOf p =
     rev (tl (dropWhile (\<lambda>c. \<not> isSep c) (dropWhile isSep (rev p))))"

function fs_MkdirAll :: "fsys \<Rightarrow> path \<Rightarrow> fsys \<times> cause option" where
  "fs_MkdirAll s p =
     (case fs_Stat s p of
        Inr d \<Rightarrow> if d then (s, None) else (s, Some ''not a directory'')
      | Inl c \<Rightarrow>
          (case (if parentOf p \<noteq> [] then fs_MkdirAll s (parentOf p) else (s, None)) of
             (s1, Some e) \<Rightarrow> (s1, Some e)
           | (s1, None) \<Rightarrow>
               (case fs_Mkdir s1 p of
                  (s2, None) \<Rightarrow> (s2, None)
                | (s2, Some e) \<Rightarrow>
                    (case fs_Stat s2 p of
                       Inr d \<Rightarrow> if d then (s2, None) else (s2, Some e)
                     | Inl c' \<Rightarrow> (s2, Some e)))))"
  by pat_completeness auto
termination
proof (relation "measure (\<lambda>(s, p). length p)")
  show "wf (measure (\<lambda>(s, p). length p))"
    by simp
next
  fix s :: fsys and p :: path and c :: cause
  assume ne: "parentOf p \<noteq> []"
  let ?r = "dropWhile (\<lambda>c. \<not> isSep c) (dropWhile isSep (rev p))"
  have "tl ?r \<noteq> []"
    using ne by (simp add: parentOf_def)
  then have "length (tl ?r) < length ?r"
    by (cases ?r) simp_all
  moreover have "length ?r \<le> length (dropWhile isSep (rev p))"
    by (rule length_dropWhile_le)
  moreover have "length (dropWhile isSep (rev p)) \<le> length (rev p)"
    by (rule length_dropWhile_le)
  ultimately have "length (parentOf p) < length p"
    by (simp add: parentOf_def)
  then show "((s, parentOf p), (s, p)) \<in> measure (\<lambda>(s, p). length p)"
    by simp
qed

declare fs_MkdirAll.simps [simp del]

text \<open>
  \<open>os.Create\<close> opens with \<open>O_RDWR|O_CREATE|O_TRUNC\<close>: an existing file is emptied, a
  missing one is created in its directory, which must exist. \<open>fs_Write\<close> is the write of
  the whole content followed by the close.
\<close>

definition fs_Create :: "fsys \<Rightarrow> path \<Rightarrow> cause + fsys" where
  "fs_Create s p =
     (if p = [] then Inl ENOENT
      else let k = Clean p
           in if isDir s k then Inl ''is a directory''
              else if k \<in> set (denied s) then Inl ''permission denied''
              else if isFile s k \<or> isDir s (Dir k) then Inr (s\<lparr>files := (k, []) # files s\<rparr>)
              else Inl ENOENT)"

definition fs_Write :: "fsys \<Rightarrow> path \<Rightarrow> bytes \<Rightarrow> fsys" where
  "fs_Write s p b = s\<lparr>files := (Clean p, b) # files s\<rparr>"

text \<open>
  \<open>imaging.Save\<close> takes the format from the extension of the file name
  (\<open>FormatFromFilename\<close>: the extension without its dot, lower-cased, must be a key of
  \<open>formatExts\<close>), creates the file, encodes the image in that format and closes the
  file. The encoders are the parameter \<open>enc\<close>.
\<close>

definition TrimPrefix :: "string \<Rightarrow> string \<Rightarrow> string" where
  "TrimPrefix s prefix =
     (if take (length prefix) s = prefix then drop (length prefix) s else s)"

definition formatExts :: "string list" where
  "formatExts = [''jpg'', ''jpeg'', ''png'', ''gif'', ''tif'', ''tiff'', ''bmp'']"

definition FormatFromFilename :: "(string \<Rightarrow> string) \<Rightarrow> path \<Rightarrow> cause + string" where
  "FormatFromFilename uni q =
     (let ext = ToLower uni (TrimPrefix (Ext q) ''.'')
      in if ext \<in> set formatExts then Inr ext else Inl ''imaging: unsupported image format'')"

definition fs_Save ::
  "(string \<Rightarrow> string) \<Rightarrow> (string \<Rightarrow> 'img \<Rightarrow> cause + bytes) \<Rightarrow> fsys \<Rightarrow> 'img \<Rightarrow> path
     \<Rightarrow> fsys \<times> cause option" where
  "fs_Save uni enc s img q =
     (case FormatFromFilename uni q of
        Inl c \<Rightarrow> (s, Some c)
      | Inr f \<Rightarrow>
          (case fs_Create s q of
             Inl c \<Rightarrow> (s, Some c)
           | Inr s1 \<Rightarrow>
               (case enc f img of
                  Inl c \<Rightarrow> (s1, Some c)
                | Inr b \<Rightarrow> (fs_Write s1 q b, None))))"

text \<open>
  The state after a history is the initial state changed by each call in turn, and
  \<open>onFS init enc L\<close> is the environment \<open>L\<close> with \<open>os.MkdirAll\<close> and
  \<open>imaging.Save\<close> answered from that state.
\<close>

fun effect ::
  "(string \<Rightarrow> string) \<Rightarrow> (string \<Rightarrow> 'img \<Rightarrow> cause + bytes) \<Rightarrow> fsys \<Rightarrow> 'img call \<Rightarrow> fsys" where
  "effect uni enc s (MkdirAll p m r) = fst (fs_MkdirAll s p)"
| "effect uni enc s (Save img q r) = fst (fs_Save uni enc s img q)"

definition fsAfter ::
  "(string \<Rightarrow> string) \<Rightarrow> (string \<Rightarrow> 'img \<Rightarrow> cause + bytes) \<Rightarrow> fsys \<Rightarrow> 'img trace \<Rightarrow> fsys" where
  "fsAfter uni enc init t = foldl (effect uni enc) init t"

definition onFS ::
  "fsys \<Rightarrow> (string \<Rightarrow> 'img \<Rightarrow> cause + bytes) \<Rightarrow> 'img lib \<Rightarrow> 'img lib" where
  "onFS init enc L =
     L\<lparr>os_MkdirAll :=
         (\<lambda>t p m. snd (fs_MkdirAll (fsAfter (unicode_ToLower L) enc init t) p)),
       imaging_Save :=
         (\<lambda>t img q. snd (fs_Save (unicode_ToLower L) enc (fsAfter (unicode_ToLower L) enc init t) img q))\<rparr>"

text \<open>
  A save of \<open>img\<close> at \<open>q\<close> will succeed in state \<open>s\<close> (\<open>creatable\<close>), and it will
  succeed on a file that is already there (\<open>resavable\<close>).
\<close>

definition creatable ::
  "(string \<Rightarrow> string) \<Rightarrow> (string \<Rightarrow> 'img \<Rightarrow> cause + bytes) \<Rightarrow> fsys \<Rightarrow> 'img \<Rightarrow> path \<Rightarrow> bool" where
  "creatable uni enc s img q =
     (case FormatFromFilename uni q of
        Inl c \<Rightarrow> False
      | Inr f \<Rightarrow>
          (case enc f img of
             Inl c \<Rightarrow> False
           | Inr b \<Rightarrow> q \<noteq> [] \<and> \<not> isDir s (Clean q) \<and> Clean q \<notin> set (denied s)
                       \<and> (isFile s (Clean q) \<or> isDir s (Dir (Clean q)))))"

definition resavable ::
  "(string \<Rightarrow> string) \<Rightarrow> (string \<Rightarrow> 'img \<Rightarrow> cause + bytes) \<Rightarrow> fsys \<Rightarrow> 'img \<Rightarrow> path \<Rightarrow> bool" where
  "resavable uni enc s img q =
     (case FormatFromFilename uni q of
        Inl c \<Rightarrow> False
      | Inr f \<Rightarrow>
          (case enc f img of
             Inl c \<Rightarrow> False
           | Inr b \<Rightarrow> q \<noteq> [] \<and> \<not> isDir s (Clean q) \<and> Clean q \<notin> set (denied s)
                       \<and> isFile s (Clean q)))"

text \<open>A state and an encoder for the examples.\<close>

definition demoFS :: fsys where
  "demoFS = \<lparr>dirs = [], files = [(''cat.png'', pngBytes)], denied = [''cat_emote_bundle/notes.txt'']\<rparr>"

definition demoEncode :: "string \<Rightarrow> demo_img \<Rightarrow> cause + bytes" where
  "demoEncode f img = Inr (f @ '':'' @ fst img)"

section \<open>Notions used to state the properties\<close>

text \<open>A string without a path separator, and the part of an output file name that follows the base name.\<close>

definition sepFree :: "string \<Rightarrow> bool" where
  "sepFree s = list_all (\<lambda>c. \<not> isSep c) s"

definition suffixOf :: "EmoteSize \<Rightarrow> string" where
  "suffixOf sz = ''-'' @ Platform sz @ ''-'' @ Name sz @ ''-'' @
     fmt_d (Width sz) @ ''x'' @ fmt_d (Height sz) @ ''.png''"

text \<open>
  The call the loop logs for an entry whose save succeeds; what \<open>imaging.Save\<close>
  returns for entry \<open>i\<close> once the entries before it have been saved; and the paths
  of the saves that succeeded in a history.
\<close>

definition saved :: "'img lib \<Rightarrow> path \<Rightarrow> 'img \<Rightarrow> EmoteSize \<Rightarrow> 'img call" where
  "saved lib p img sz = Save (resized lib img sz) (outputPath p sz) None"

definition saveAt ::
  "'img lib \<Rightarrow> path \<Rightarrow> 'img \<Rightarrow> EmoteSize list \<Rightarrow> 'img trace \<Rightarrow> nat \<Rightarrow> cause option" where
  "saveAt lib p img szs t i =
     imaging_Save lib (t @ map (saved lib p img) (take i szs))
       (resized lib img (szs ! i)) (outputPath p (szs ! i))"

fun written :: "'img trace \<Rightarrow> path list" where
  "written [] = []"
| "written (Save img q None # t) = q # written t"
| "written (c # t) = written t"

section \<open>Facts shared by the proofs\<close>

lemma demo_sel [simp]:
  "unicode_ToLower (demo disk locked) = (\<lambda>s. s)"
  "os_Open (demo disk locked) = (\<lambda>t. demoRead disk)"
  "jpeg_Decode (demo disk locked) = demoDecode JPEG"
  "png_Decode (demo disk locked) = demoDecode PNG"
  "gif_stream (demo disk locked) =
     (\<lambda>b. if hasMagic GIF b then Inr [Inr (b, 0, 0), Inl ''gif: not enough image data'']
          else Inl ''gif: bad header'')"
  "webp_Decode (demo disk locked) = demoDecode WEBP"
  "bmp_Decode (demo disk locked) = demoDecode BMP"
  "tiff_Decode (demo disk locked) = demoDecode TIFF"
  "webp_kept (demo disk locked) = False"
  "imaging_Fill (demo disk locked) = (\<lambda>img w h anchor flt. (fst img, w, h))"
  "os_MkdirAll (demo disk locked) = (\<lambda>t p m. None)"
  "imaging_Save (demo disk locked) =
     (\<lambda>t img q. if q \<in> set locked then Some ''permission denied'' else None)"
  "fyne_LoadResourceFromPath (demo disk locked) = (\<lambda>t. demoRead disk)"
  by (simp_all add: demo_def)

lemma index_validExts:
  "index (validExts v) ext =
     (ext \<in> (case v of
               Baseline \<Rightarrow> {''.jpg'', ''.jpeg'', ''.png'', ''.gif''}
             | Extended \<Rightarrow> {''.jpg'', ''.jpeg'', ''.png'', ''.gif'', ''.webp'', ''.webm''}))"
  by (cases v) (auto simp: index_def)

subsection \<open>Paths\<close>

lemma splitSep_ne: "splitSep s \<noteq> []"
  by (induction s) (auto split: list.splits)

lemma splitSep_sepFree: "sepFree c \<Longrightarrow> splitSep c = [c]"
  by (induction c) (auto simp: sepFree_def)

lemma splitSep_snoc:
  "sepFree c \<Longrightarrow> splitSep (y @ CHR ''/'' # c) = splitSep y @ [c]"
proof (induction y)
  case Nil
  then show ?case by (simp add: splitSep_sepFree isSep_def)
next
  case (Cons a y)
  then show ?case
    using splitSep_ne [of y] by (cases "splitSep y") auto
qed

lemma joinSep_snoc:
  "joinSep (xs @ [c]) = (if xs = [] then c else joinSep xs @ CHR ''/'' # c)"
  by (induction xs rule: joinSep.induct) auto

lemma Clean_snoc:
  assumes "sepFree c" and "2 < length c"
  shows "\<exists>w. Clean (y @ CHR ''/'' # c) = w @ c \<and> (w = [] \<or> last w = CHR ''/'')"
proof -
  let ?r = "isSep (hd (y @ CHR ''/'' # c))"
  let ?stk = "foldl (cleanStep ?r) [] (splitSep y)"
  have c: "c \<noteq> []" "c \<noteq> ''.''" "c \<noteq> ''..''"
    using assms(2) by auto
  have "foldl (cleanStep ?r) [] (splitSep (y @ CHR ''/'' # c)) = c # ?stk"
    using c by (simp add: splitSep_snoc assms(1) cleanStep_def)
  then have body: "joinSep (rev (foldl (cleanStep ?r) [] (splitSep (y @ CHR ''/'' # c))))
      = (if ?stk = [] then c else joinSep (rev ?stk) @ CHR ''/'' # c)"
    by (simp add: joinSep_snoc)
  show ?thesis
  proof (cases ?r)
    case True
    let ?w = "CHR ''/'' # (if ?stk = [] then [] else joinSep (rev ?stk) @ ''/'')"
    have "Clean (y @ CHR ''/'' # c) = ?w @ c"
      using True body by (simp add: Clean_def Let_def)
    moreover have "last ?w = CHR ''/''"
      by simp
    ultimately show ?thesis
      by (intro exI [of _ ?w]) simp
  next
    case False
    let ?w = "if ?stk = [] then [] else joinSep (rev ?stk) @ ''/''"
    have "Clean (y @ CHR ''/'' # c) = ?w @ c"
      using False body c by (simp add: Clean_def Let_def)
    moreover have "?w = [] \<or> last ?w = CHR ''/''"
      by simp
    ultimately show ?thesis
      by (intro exI [of _ ?w]) simp
  qed
qed

lemma Base_snoc:
  assumes "sepFree c" and "c \<noteq> []" and "w = [] \<or> last w = CHR ''/''"
  shows "Base (w @ c) = c"
proof -
  have hd: "\<not> isSep (hd (rev c))"
    using assms(1,2) by (simp add: sepFree_def list_all_iff hd_rev)
  have d: "dropWhile isSep (rev c @ rev w) = rev c @ rev w"
    using hd assms(2) by (cases "rev c") auto
  have t: "takeWhile (\<lambda>c. \<not> isSep c) (rev w) = []"
    using assms(3) by (cases w rule: rev_cases) (auto simp: isSep_def)
  have "takeWhile (\<lambda>c. \<not> isSep c) (rev c @ rev w)
      = rev c @ takeWhile (\<lambda>c. \<not> isSep c) (rev w)"
    by (rule takeWhile_append2) (use assms(1) in \<open>simp add: sepFree_def list_all_iff\<close>)
  then have "takeWhile (\<lambda>c. \<not> isSep c) (rev c @ rev w) = rev c"
    using t by simp
  then show ?thesis
    using assms(2) d by (simp add: Base_def Let_def)
qed

lemma split_last_elem:
  "\<exists>b0 e. s = b0 @ e \<and> sepFree e \<and> (b0 = [] \<or> last b0 = CHR ''/'')"
proof (induction s rule: rev_induct)
  case Nil
  then show ?case by (simp add: sepFree_def)
next
  case (snoc x xs)
  then obtain b0 e where be: "xs = b0 @ e" "sepFree e" "b0 = [] \<or> last b0 = CHR ''/''"
    by blast
  show ?case
  proof (cases "isSep x")
    case True
    then have "xs @ [x] = (xs @ [x]) @ [] \<and> sepFree [] \<and> last (xs @ [x]) = CHR ''/''"
      by (simp add: sepFree_def isSep_def)
    then show ?thesis by blast
  next
    case False
    then have "xs @ [x] = b0 @ (e @ [x]) \<and> sepFree (e @ [x])"
      using be by (simp add: sepFree_def)
    then show ?thesis using be(3) by blast
  qed
qed

lemma Clean_ne: "Clean p \<noteq> []"
  by (simp add: Clean_def Let_def)

lemma Join2:
  "d \<noteq> [] \<Longrightarrow> Join [d, f] = Clean (d @ CHR ''/'' # f)"
  by (simp add: Join_def)

lemma bundleDir_ne: "bundleDir p \<noteq> []"
proof -
  have "Dir p \<noteq> []" by (simp add: Dir_def Clean_ne)
  then show ?thesis by (simp add: bundleDir_def Join2 Clean_ne)
qed

lemma filename_suffixOf: "filename base sz = base @ suffixOf sz"
  by (simp add: filename_def suffixOf_def)

lemma Join_filename:
  assumes "sepFree sfx" and "2 < length sfx" and "d \<noteq> []"
  shows "\<exists>w e. Join [d, b @ sfx] = w @ e @ sfx \<and> Base (Join [d, b @ sfx]) = e @ sfx
           \<and> Base (b @ sfx) = e @ sfx \<and> (\<exists>b0. b = b0 @ e)"
proof -
  obtain b0 e where be: "b = b0 @ e" "sepFree e" "b0 = [] \<or> last b0 = CHR ''/''"
    using split_last_elem by blast
  have sf: "sepFree (e @ sfx)" using be(2) assms(1) by (simp add: sepFree_def)
  have len: "2 < length (e @ sfx)" using assms(2) by simp
  have "\<exists>y. d @ CHR ''/'' # b @ sfx = y @ CHR ''/'' # (e @ sfx)"
  proof (cases "b0 = []")
    case True
    then show ?thesis using be(1) by auto
  next
    case False
    then obtain b1 where "b0 = b1 @ ''/''"
      using be(3) by (metis append_butlast_last_id)
    then have "d @ CHR ''/'' # b @ sfx = (d @ CHR ''/'' # b1) @ CHR ''/'' # (e @ sfx)"
      using be(1) by simp
    then show ?thesis by blast
  qed
  then obtain y where y: "d @ CHR ''/'' # b @ sfx = y @ CHR ''/'' # (e @ sfx)" by blast
  obtain w where w: "Clean (y @ CHR ''/'' # (e @ sfx)) = w @ (e @ sfx)" "w = [] \<or> last w = CHR ''/''"
    using Clean_snoc [OF sf len] by blast
  have "Join [d, b @ sfx] = Clean (d @ CHR ''/'' # b @ sfx)"
    using assms(3) by (simp add: Join2)
  also have "\<dots> = Clean (y @ CHR ''/'' # (e @ sfx))"
    by (simp only: y)
  finally have j: "Join [d, b @ sfx] = w @ e @ sfx"
    using w(1) by simp
  have ne: "e @ sfx \<noteq> []" using assms(2) by auto
  have "Base (w @ (e @ sfx)) = e @ sfx"
    by (rule Base_snoc [OF sf ne w(2)])
  moreover have "Base (b0 @ (e @ sfx)) = e @ sfx"
    by (rule Base_snoc [OF sf ne be(3)])
  ultimately show ?thesis using j be(1) by auto
qed

lemma Ext_png: "Ext (z @ ''.png'') = ''.png''"
  by (simp add: Ext_def isSep_def)

lemma suffixOf_all:
  "list_all (\<lambda>sz. sepFree (suffixOf sz) \<and> 2 < length (suffixOf sz)) emoteSizes"
  by (simp add: emoteSizes_def mkSize_def suffixOf_def sepFree_def isSep_def fmt_d_def dec.simps)

lemma suffixOf_catalog:
  "sz \<in> set emoteSizes \<Longrightarrow> sepFree (suffixOf sz) \<and> 2 < length (suffixOf sz)"
  using suffixOf_all by (simp add: list_all_iff)

lemma outputPath_Base:
  assumes "sz \<in> set emoteSizes"
  shows "Base (outputPath p sz) = Base (filename (baseFilename p) sz)"
    and "Ext (outputPath p sz) = ''.png''"
proof -
  obtain w e where we: "Join [bundleDir p, baseFilename p @ suffixOf sz] = w @ e @ suffixOf sz"
      "Base (Join [bundleDir p, baseFilename p @ suffixOf sz]) = e @ suffixOf sz"
      "Base (baseFilename p @ suffixOf sz) = e @ suffixOf sz"
    using Join_filename [of "suffixOf sz" "bundleDir p" "baseFilename p"]
      suffixOf_catalog [OF assms] bundleDir_ne by blast
  show "Base (outputPath p sz) = Base (filename (baseFilename p) sz)"
    using we by (simp add: outputPath_def filename_suffixOf)
  have "\<exists>z. outputPath p sz = z @ ''.png''"
    using we(1) by (simp add: outputPath_def filename_suffixOf suffixOf_def)
  then show "Ext (outputPath p sz) = ''.png''"
    using Ext_png by auto
qed

lemma distinct_map_through:
  "distinct (map f xs) \<Longrightarrow> (\<And>x y. x \<in> set xs \<Longrightarrow> y \<in> set xs \<Longrightarrow> g x = g y \<Longrightarrow> f x = f y)
     \<Longrightarrow> distinct (map g xs)"
  by (induction xs) auto

lemma sepFree_Base: "sepFree b \<Longrightarrow> b \<noteq> [] \<Longrightarrow> Base b = b"
  using Base_snoc [of b "[]"] by simp

lemma Base_filename:
  assumes "sz \<in> set emoteSizes" and "b = b0 @ e" and "sepFree e" and "b0 = [] \<or> last b0 = CHR ''/''"
  shows "Base (filename b sz) = e @ suffixOf sz"
proof -
  have sf: "sepFree (e @ suffixOf sz)"
    using assms(3) suffixOf_catalog [OF assms(1)] by (simp add: sepFree_def)
  have ne: "e @ suffixOf sz \<noteq> []"
    using suffixOf_catalog [OF assms(1)] by auto
  show ?thesis
    using Base_snoc [OF sf ne assms(4)] assms(2) by (simp add: filename_suffixOf)
qed

lemma distinct_outputPath: "distinct (map (outputPath p) emoteSizes)"
proof (rule distinct_map_through [where f = "filename (baseFilename p)"])
  show "distinct (map (filename (baseFilename p)) emoteSizes)"
    by (simp add: emoteSizes_def mkSize_def filename_def fmt_d_def dec.simps)
next
  fix x y
  assume xy: "x \<in> set emoteSizes" "y \<in> set emoteSizes" "outputPath p x = outputPath p y"
  obtain b0 e where be: "baseFilename p = b0 @ e" "sepFree e" "b0 = [] \<or> last b0 = CHR ''/''"
    using split_last_elem by blast
  have "Base (filename (baseFilename p) x) = Base (filename (baseFilename p) y)"
    using outputPath_Base(1) [OF xy(1), of p] outputPath_Base(1) [OF xy(2), of p] xy(3) by simp
  then have "e @ suffixOf x = e @ suffixOf y"
    using Base_filename [OF xy(1) be] Base_filename [OF xy(2) be] by simp
  then show "filename (baseFilename p) x = filename (baseFilename p) y"
    by (simp add: filename_suffixOf)
qed

subsection \<open>The loop and the run\<close>

lemma saveAt_Suc:
  "saveAt lib p img (sz # rest) t (Suc j) = saveAt lib p img rest (t @ [saved lib p img sz]) j"
  by (simp add: saveAt_def)

lemma saveAt_0:
  "saveAt lib p img (sz # rest) t 0 = imaging_Save lib t (resized lib img sz) (outputPath p sz)"
  by (simp add: saveAt_def)

lemma convertSizes_ok:
  "(\<forall>i<length szs. saveAt lib p img szs t i = None)
     \<Longrightarrow> convertSizes lib p img szs t = (t @ map (saved lib p img) szs, None)"
proof (induction szs arbitrary: t)
  case Nil
  then show ?case by simp
next
  case (Cons sz rest)
  have 0: "imaging_Save lib t (resized lib img sz) (outputPath p sz) = None"
    using Cons.prems saveAt_0 [of lib p img sz rest t] by auto
  have "\<forall>i<length rest. saveAt lib p img rest (t @ [saved lib p img sz]) i = None"
    using Cons.prems saveAt_Suc [of lib p img sz rest t] by auto
  then have "convertSizes lib p img rest (t @ [saved lib p img sz])
      = ((t @ [saved lib p img sz]) @ map (saved lib p img) rest, None)"
    by (rule Cons.IH)
  then show ?case
    using 0 by (simp add: Let_def saved_def)
qed

lemma convertSizes_fail:
  "i < length szs \<Longrightarrow> (\<forall>j<i. saveAt lib p img szs t j = None)
     \<Longrightarrow> saveAt lib p img szs t i = Some c
     \<Longrightarrow> convertSizes lib p img szs t =
          (t @ map (saved lib p img) (take i szs)
             @ [Save (resized lib img (szs ! i)) (outputPath p (szs ! i)) (Some c)],
           Some (SaveError (filename (baseFilename p) (szs ! i)) c))"
proof (induction szs arbitrary: t i)
  case Nil
  then show ?case by simp
next
  case (Cons sz rest)
  show ?case
  proof (cases i)
    case 0
    then show ?thesis
      using Cons.prems(3) by (simp add: saveAt_0 Let_def)
  next
    case (Suc k)
    have 0: "imaging_Save lib t (resized lib img sz) (outputPath p sz) = None"
      using Cons.prems(2) Suc saveAt_0 [of lib p img sz rest t] by auto
    have k: "k < length rest"
      using Cons.prems(1) Suc by simp
    have before: "\<forall>j<k. saveAt lib p img rest (t @ [saved lib p img sz]) j = None"
      using Cons.prems(2) Suc saveAt_Suc [of lib p img sz rest t] by auto
    have at: "saveAt lib p img rest (t @ [saved lib p img sz]) k = Some c"
      using Cons.prems(3) Suc by (simp add: saveAt_Suc)
    show ?thesis
      using Cons.IH [OF k before at] 0 Suc by (simp add: Let_def saved_def)
  qed
qed

lemma convertSizes_None:
  "convertSizes lib p img szs t = (t', None) \<Longrightarrow> t' = t @ map (saved lib p img) szs"
proof (induction szs arbitrary: t)
  case Nil
  then show ?case by simp
next
  case (Cons sz rest)
  from Cons.prems have 0: "imaging_Save lib t (resized lib img sz) (outputPath p sz) = None"
    by (simp add: Let_def split: option.splits)
  with Cons.prems have "convertSizes lib p img rest (t @ [saved lib p img sz]) = (t', None)"
    by (simp add: Let_def saved_def)
  then have "t' = (t @ [saved lib p img sz]) @ map (saved lib p img) rest"
    by (rule Cons.IH)
  then show ?case by simp
qed

lemma written_append: "written (t @ u) = written t @ written u"
  by (induction t rule: written.induct) auto

lemma written_saved: "written (map (saved lib p img) szs) = map (outputPath p) szs"
  by (induction szs) (auto simp: saved_def)

lemma processImage_None:
  assumes "processImage v lib a t = (t', None)"
  shows "\<exists>file img.
           os_Open lib t (selectedFile a) = Inr file
           \<and> decodeImage v lib (ToLower (unicode_ToLower lib) (Ext (selectedFile a))) file = Inr img
           \<and> os_MkdirAll lib t (bundleDir (selectedFile a)) perm = None
           \<and> t' = t @ MkdirAll (bundleDir (selectedFile a)) perm None
                     # map (saved lib (selectedFile a) img) emoteSizes"
  using assms
  by (auto simp: processImage_def writeBundle_def Let_def
      split: sum.splits option.splits dest!: convertSizes_None)

lemma Base_sepFree: "Base p = ''/'' \<or> sepFree (Base p)"
proof (cases "p = []")
  case True
  then show ?thesis by (simp add: Base_def sepFree_def isSep_def)
next
  case False
  let ?e = "rev (takeWhile (\<lambda>c. \<not> isSep c) (dropWhile isSep (rev p)))"
  have "sepFree ?e"
    by (auto simp: sepFree_def list_all_iff dest: set_takeWhileD)
  then show ?thesis
    using False by (auto simp: Base_def Let_def)
qed

lemma baseFilename_sepFree: "Base p \<noteq> ''/'' \<Longrightarrow> sepFree (baseFilename p)"
  using Base_sepFree [of p]
  by (auto simp: baseFilename_def TrimSuffix_def sepFree_def list_all_iff dest: in_set_takeD)

lemma outputPath_Base_filename:
  assumes "sz \<in> set emoteSizes" and "Base p \<noteq> ''/''"
  shows "Base (outputPath p sz) = filename (baseFilename p) sz"
proof -
  have "sepFree (filename (baseFilename p) sz)"
    using baseFilename_sepFree [OF assms(2)] suffixOf_catalog [OF assms(1)]
    by (simp add: filename_suffixOf sepFree_def)
  moreover have "filename (baseFilename p) sz \<noteq> []"
    by (simp add: filename_def)
  ultimately show ?thesis
    using outputPath_Base(1) [OF assms(1), of p] by (simp add: sepFree_Base)
qed

lemma cat_paths:
  "map (outputPath ''cat.png'') emoteSizes =
     [''cat_emote_bundle/cat-Discord-Small-28x28.png'',
      ''cat_emote_bundle/cat-Discord-Medium-32x32.png'',
      ''cat_emote_bundle/cat-Discord-Large-48x48.png'',
      ''cat_emote_bundle/cat-Discord-Animated-128x128.png'',
      ''cat_emote_bundle/cat-Twitch-1.0-28x28.png'',
      ''cat_emote_bundle/cat-Twitch-2.0-56x56.png'',
      ''cat_emote_bundle/cat-Twitch-3.0-112x112.png'',
      ''cat_emote_bundle/cat-7TV-1x-32x32.png'',
      ''cat_emote_bundle/cat-7TV-2x-64x64.png'',
      ''cat_emote_bundle/cat-7TV-3x-96x96.png'',
      ''cat_emote_bundle/cat-7TV-4x-128x128.png'']"
proof -
  have e: "Ext ''cat.png'' = ''.png''"
    by (simp add: Ext_def isSep_def)
  have b: "baseFilename ''cat.png'' = ''cat''"
    by (simp add: baseFilename_def e Base_def isSep_def TrimSuffix_def HasSuffix_def)
  have d: "bundleDir ''cat.png'' = ''cat_emote_bundle''"
    by (simp add: bundleDir_def b Dir_def Join_def Clean_def isSep_def cleanStep_def)
  show ?thesis
    by (simp add: emoteSizes_def mkSize_def outputPath_def b d filename_def fmt_d_def dec.simps
        Join_def Clean_def isSep_def cleanStep_def)
qed

subsection \<open>The caller and the example environment\<close>

lemma magic_png: "hasMagic PNG pngBytes"
  by (simp add: hasMagic_def match_def pngBytes_def)

lemma demo_run_ok:
  assumes "demoRead disk p = Inr bs"
    and "decodeImage v (demo disk []) (ToLower (\<lambda>s. s) (Ext p)) bs = Inr img"
  shows "processImage v (demo disk []) (a\<lparr>selectedFile := p\<rparr>) t =
           (t @ MkdirAll (bundleDir p) perm None # map (saved (demo disk []) p img) emoteSizes, None)"
  using assms by (simp add: processImage_def writeBundle_def convertSizes_ok saveAt_def)

lemma processImage_selectedFile:
  "selectedFile a = selectedFile b \<Longrightarrow> processImage v lib a t = processImage v lib b t"
  unfolding processImage_def by (erule subst) (rule refl)

lemma convertAndSave_error:
  assumes "processImage v lib a t = (t', Some err)" and "selectedFile a \<noteq> []"
  shows "convertAndSave v lib (a, t) =
           (a\<lparr>convertBtn := True,
              statusLabel := ''Error: '' @ errorText err,
              window := window a @ [ShowError (errorText err)]\<rparr>, t')"
proof -
  let ?a1 = "a\<lparr>convertBtn := False, statusLabel := ''Converting images...''\<rparr>"
  have "processImage v lib ?a1 t = (t', Some err)"
    using assms(1) processImage_selectedFile [of ?a1 a v lib t] by simp
  then show ?thesis
    using assms(2) by (simp add: convertAndSave_def showError_def)
qed

lemma convertAndSave_success:
  assumes "processImage v lib a t = (t', None)" and "selectedFile a \<noteq> []"
  shows "convertAndSave v lib (a, t) =
           (a\<lparr>statusLabel := ''Conversion completed successfully!'',
              convertBtn := True,
              window := window a @
                [ShowInformation ''Success'' ''All emote sizes have been created and saved!'']\<rparr>, t')"
proof -
  let ?a1 = "a\<lparr>convertBtn := False, statusLabel := ''Converting images...''\<rparr>"
  have "processImage v lib ?a1 t = (t', None)"
    using assms(1) processImage_selectedFile [of ?a1 a v lib t] by simp
  then show ?thesis
    using assms(2) by (simp add: convertAndSave_def)
qed

lemma png_ext: "ToLower (\<lambda>s. s) (Ext (c1 # c2 # c3 # ''.png'')) = ''.png''"
  by (simp add: Ext_def isSep_def ToLower_def isASCII_def lowerByte_def)

lemma cat_base: "baseFilename ''cat.png'' = ''cat''"
  by (simp add: baseFilename_def Ext_def Base_def isSep_def TrimSuffix_def HasSuffix_def)

lemma cat_dir: "bundleDir ''cat.png'' = ''cat_emote_bundle''"
  by (simp add: bundleDir_def cat_base Dir_def Join_def Clean_def isSep_def cleanStep_def)

lemma dog_dir: "bundleDir ''dog.png'' = ''dog_emote_bundle''"
  by (simp add: bundleDir_def baseFilename_def Ext_def Base_def TrimSuffix_def HasSuffix_def
      Dir_def Join_def Clean_def isSep_def cleanStep_def)

lemma demo_decode_png:
  "decodeImage v (demo disk locked) ''.png'' pngBytes = Inr (pngBytes, 0, 0)"
  by (cases v) (simp_all add: demoDecode_def magic_png)

lemma demo_png_run:
  assumes "map_of disk (c1 # c2 # c3 # ''.png'') = Some pngBytes"
  shows "processImage v (demo disk []) (newApp\<lparr>selectedFile := c1 # c2 # c3 # ''.png''\<rparr>) t =
           (t @ MkdirAll (bundleDir (c1 # c2 # c3 # ''.png'')) perm None
              # map (saved (demo disk []) (c1 # c2 # c3 # ''.png'') (pngBytes, 0, 0)) emoteSizes, None)"
proof -
  have "demoRead disk (c1 # c2 # c3 # ''.png'') = Inr pngBytes"
    using assms by (simp add: demoRead_def)
  moreover have "decodeImage v (demo disk []) (ToLower (\<lambda>s. s) (Ext (c1 # c2 # c3 # ''.png''))) pngBytes
      = Inr (pngBytes, 0, 0)"
    by (simp only: png_ext demo_decode_png)
  ultimately show ?thesis
    by (rule demo_run_ok)
qed

lemma writeBundle_ok:
  assumes "os_MkdirAll lib t (bundleDir p) perm = None"
    and "\<forall>i<length emoteSizes. saveAt lib p img emoteSizes (t @ [MkdirAll (bundleDir p) perm None]) i = None"
  shows "writeBundle lib p img t =
           (t @ MkdirAll (bundleDir p) perm None # map (saved lib p img) emoteSizes, None)"
  using assms(1) convertSizes_ok [OF assms(2)] by (simp add: writeBundle_def)

lemma ext_lower:
  "ToLower (\<lambda>s. s) (Ext ''clip.webm'') = ''.webm''"
  "ToLower (\<lambda>s. s) (Ext ''logo.webm'') = ''.webm''"
  "ToLower (\<lambda>s. s) (Ext ''pic.webp'') = ''.webp''"
  "ToLower (\<lambda>s. s) (Ext ''ANIM.GIF'') = ''.gif''"
  by (simp_all add: Ext_def isSep_def ToLower_def isASCII_def lowerByte_def)

lemma demo_saves_ok: "saveAt (demo disk []) p img szs t i = None"
  by (simp add: saveAt_def)

subsection \<open>Decoders and the file system\<close>

lemma isDir_dirs: "dirs s = dirs s' \<Longrightarrow> isDir s k = isDir s' k"
  by (simp add: isDir_def)

lemma fs_MkdirAll_None:
  assumes "fs_MkdirAll s p = (s', None)"
  shows "p \<noteq> [] \<and> isDir s' (Clean p)"
proof (cases "fs_Stat s p")
  case (Inr d)
  then have "d" and "s' = s"
    using assms by (auto simp: fs_MkdirAll.simps [of s p] split: if_splits)
  moreover have "p \<noteq> [] \<and> isDir s (Clean p)"
    using Inr \<open>d\<close> by (auto simp: fs_Stat_def Let_def split: if_splits)
  ultimately show ?thesis by simp
next
  case (Inl c)
  obtain s1 r1 where par:
    "(if parentOf p \<noteq> [] then fs_MkdirAll s (parentOf p) else (s, None)) = (s1, r1)"
    by (cases "if parentOf p \<noteq> [] then fs_MkdirAll s (parentOf p) else (s, None)") blast
  obtain s2 r2 where mk: "fs_Mkdir s1 p = (s2, r2)"
    by (cases "fs_Mkdir s1 p") blast
  have r1: "r1 = None"
    using assms Inl par by (cases r1) (auto simp: fs_MkdirAll.simps [of s p])
  show ?thesis
  proof (cases r2)
    case None
    then have "s' = s2"
      using assms Inl par r1 mk by (simp add: fs_MkdirAll.simps [of s p])
    moreover have "p \<noteq> [] \<and> isDir s2 (Clean p)"
      using mk None by (auto simp: fs_Mkdir_def Let_def isDir_def split: if_splits)
    ultimately show ?thesis by simp
  next
    case (Some e)
    then have "s' = s2 \<and> fs_Stat s2 p = Inr True"
      using assms Inl par r1 mk
      by (auto simp: fs_MkdirAll.simps [of s p] split: sum.splits if_splits)
    then show ?thesis
      by (auto simp: fs_Stat_def Let_def split: if_splits)
  qed
qed

lemma fs_MkdirAll_exists:
  "p \<noteq> [] \<Longrightarrow> isDir s (Clean p) \<Longrightarrow> fs_MkdirAll s p = (s, None)"
  by (simp add: fs_MkdirAll.simps [of s p] fs_Stat_def)

lemma fs_Save_dirs:
  "dirs (fst (fs_Save uni enc s img q)) = dirs s \<and> denied (fst (fs_Save uni enc s img q)) = denied s"
  by (auto simp: fs_Save_def fs_Create_def fs_Write_def Let_def split: sum.splits if_splits)

lemma fs_Save_files:
  "isFile s k \<Longrightarrow> isFile (fst (fs_Save uni enc s img q)) k"
  by (auto simp: fs_Save_def fs_Create_def fs_Write_def isFile_def Let_def split: sum.splits if_splits)

lemma fs_Save_resavable:
  "fs_Save uni enc s img q = (s', None) \<Longrightarrow> resavable uni enc s' img q"
  by (auto simp: fs_Save_def resavable_def fs_Create_def fs_Write_def isFile_def isDir_def Let_def
      split: sum.splits if_splits)

lemma resavable_kept:
  assumes "resavable uni enc s img q"
  shows "resavable uni enc (fst (fs_Save uni enc s img' q')) img q"
proof -
  let ?s' = "fst (fs_Save uni enc s img' q')"
  have "dirs ?s' = dirs s" "denied ?s' = denied s"
    using fs_Save_dirs [of uni enc s img' q'] by simp_all
  moreover have "isFile s (Clean q) \<longrightarrow> isFile ?s' (Clean q)"
    by (simp add: fs_Save_files)
  ultimately show ?thesis
    using assms by (auto simp: resavable_def isDir_def split: sum.splits)
qed

lemma resavable_saves:
  assumes "resavable uni enc s img q"
  shows "snd (fs_Save uni enc s img q) = None"
    and "isFile (fst (fs_Save uni enc s img q)) k = isFile s k"
  using assms
  by (auto simp: resavable_def fs_Save_def fs_Create_def fs_Write_def isFile_def Let_def
      split: sum.splits if_splits)

lemma fsAfter_snoc: "fsAfter uni enc init (t @ [c]) = effect uni enc (fsAfter uni enc init t) c"
  by (simp add: fsAfter_def)

lemma onFS_sel [simp]:
  "os_MkdirAll (onFS init enc L) =
     (\<lambda>t p m. snd (fs_MkdirAll (fsAfter (unicode_ToLower L) enc init t) p))"
  "imaging_Save (onFS init enc L) =
     (\<lambda>t img q. snd (fs_Save (unicode_ToLower L) enc (fsAfter (unicode_ToLower L) enc init t) img q))"
  by (simp_all add: onFS_def)

lemma onFS_pass [simp]:
  "unicode_ToLower (onFS init enc L) = unicode_ToLower L"
  "os_Open (onFS init enc L) = os_Open L"
  "imaging_Fill (onFS init enc L) = imaging_Fill L"
  "jpeg_Decode (onFS init enc L) = jpeg_Decode L"
  "png_Decode (onFS init enc L) = png_Decode L"
  "gif_stream (onFS init enc L) = gif_stream L"
  "webp_Decode (onFS init enc L) = webp_Decode L"
  "bmp_Decode (onFS init enc L) = bmp_Decode L"
  "tiff_Decode (onFS init enc L) = tiff_Decode L"
  "webp_kept (onFS init enc L) = webp_kept L"
  by (simp_all add: onFS_def)

lemma fsAfter_saved:
  "fsAfter (unicode_ToLower L) enc init (t @ [saved (onFS init enc L) p img sz]) =
     fst (fs_Save (unicode_ToLower L) enc (fsAfter (unicode_ToLower L) enc init t)
            (resized (onFS init enc L) img sz) (outputPath p sz))"
  by (simp add: fsAfter_snoc saved_def)

lemma first_run_loop:
  assumes "convertSizes (onFS init enc L) p img szs t = (t', None)"
  shows "(\<forall>sz\<in>set szs. resavable (unicode_ToLower L) enc (fsAfter (unicode_ToLower L) enc init t')
            (resized (onFS init enc L) img sz) (outputPath p sz))
         \<and> dirs (fsAfter (unicode_ToLower L) enc init t') = dirs (fsAfter (unicode_ToLower L) enc init t)
         \<and> (\<forall>im q. resavable (unicode_ToLower L) enc (fsAfter (unicode_ToLower L) enc init t) im q
               \<longrightarrow> resavable (unicode_ToLower L) enc (fsAfter (unicode_ToLower L) enc init t') im q)"
  using assms
proof (induction szs arbitrary: t)
  case Nil
  then show ?case by simp
next
  case (Cons sz rest)
  let ?lib = "onFS init enc L"
  let ?A = "fsAfter (unicode_ToLower L) enc init"
  let ?R = "resavable (unicode_ToLower L) enc"
  let ?r = "resized ?lib img sz"
  let ?q = "outputPath p sz"
  let ?t1 = "t @ [saved ?lib p img sz]"
  from Cons.prems have ok: "imaging_Save ?lib t ?r ?q = None"
    by (simp add: Let_def split: option.splits del: onFS_sel)
  with Cons.prems have rest: "convertSizes ?lib p img rest ?t1 = (t', None)"
    by (simp add: Let_def saved_def del: onFS_sel)
  have st: "?A ?t1 = fst (fs_Save (unicode_ToLower L) enc (?A t) ?r ?q)"
    by (rule fsAfter_saved)
  have "fs_Save (unicode_ToLower L) enc (?A t) ?r ?q = (?A ?t1, None)"
    using ok st by (simp add: prod_eq_iff)
  then have here: "?R (?A ?t1) ?r ?q"
    by (rule fs_Save_resavable)
  have keep1: "\<forall>im q. ?R (?A t) im q \<longrightarrow> ?R (?A ?t1) im q"
    unfolding st by (simp add: resavable_kept)
  have d1: "dirs (?A ?t1) = dirs (?A t)"
    unfolding st by (simp add: fs_Save_dirs)
  note ih = Cons.IH [OF rest]
  show ?case
    using ih here keep1 d1 by auto
qed

lemma second_run_loop:
  assumes "\<forall>sz\<in>set szs. resavable (unicode_ToLower L) enc (fsAfter (unicode_ToLower L) enc init t)
            (resized (onFS init enc L) img sz) (outputPath p sz)"
  shows "convertSizes (onFS init enc L) p img szs t = (t @ map (saved (onFS init enc L) p img) szs, None)
         \<and> dirs (fsAfter (unicode_ToLower L) enc init (t @ map (saved (onFS init enc L) p img) szs))
             = dirs (fsAfter (unicode_ToLower L) enc init t)
         \<and> (\<forall>k. isFile (fsAfter (unicode_ToLower L) enc init (t @ map (saved (onFS init enc L) p img) szs)) k
                 = isFile (fsAfter (unicode_ToLower L) enc init t) k)"
  using assms
proof (induction szs arbitrary: t)
  case Nil
  then show ?case by simp
next
  case (Cons sz rest)
  let ?lib = "onFS init enc L"
  let ?A = "fsAfter (unicode_ToLower L) enc init"
  let ?R = "resavable (unicode_ToLower L) enc"
  let ?r = "resized ?lib img sz"
  let ?q = "outputPath p sz"
  let ?t1 = "t @ [saved ?lib p img sz]"
  have here: "?R (?A t) ?r ?q"
    using Cons.prems by simp
  have ok: "imaging_Save ?lib t ?r ?q = None"
    using resavable_saves(1) [OF here] by simp
  have st: "?A ?t1 = fst (fs_Save (unicode_ToLower L) enc (?A t) ?r ?q)"
    by (rule fsAfter_saved)
  have rest: "\<forall>sz\<in>set rest. ?R (?A ?t1) (resized ?lib img sz) (outputPath p sz)"
    unfolding st using Cons.prems by (simp add: resavable_kept)
  have d1: "dirs (?A ?t1) = dirs (?A t)"
    unfolding st by (simp add: fs_Save_dirs)
  have f1: "\<forall>k. isFile (?A ?t1) k = isFile (?A t) k"
    unfolding st by (simp add: resavable_saves(2) [OF here])
  note ih = Cons.IH [OF rest]
  have step: "convertSizes ?lib p img (sz # rest) t = convertSizes ?lib p img rest ?t1"
    using ok by (simp add: Let_def saved_def del: onFS_sel)
  show ?case
    using ih d1 f1 step by simp
qed

lemma creatable_kept:
  assumes "creatable uni enc s img q"
  shows "creatable uni enc (fst (fs_Save uni enc s img' q')) img q"
proof -
  let ?s' = "fst (fs_Save uni enc s img' q')"
  have "dirs ?s' = dirs s" "denied ?s' = denied s"
    using fs_Save_dirs [of uni enc s img' q'] by simp_all
  moreover have "isFile s (Clean q) \<longrightarrow> isFile ?s' (Clean q)"
    by (simp add: fs_Save_files)
  ultimately show ?thesis
    using assms by (auto simp: creatable_def isDir_def split: sum.splits)
qed

lemma creatable_saves:
  "creatable uni enc s img q \<Longrightarrow> snd (fs_Save uni enc s img q) = None"
  by (auto simp: creatable_def fs_Save_def fs_Create_def Let_def split: sum.splits if_splits)

lemma creatable_loop:
  assumes "\<forall>sz\<in>set szs. creatable (unicode_ToLower L) enc (fsAfter (unicode_ToLower L) enc init t)
            (resized (onFS init enc L) img sz) (outputPath p sz)"
  shows "convertSizes (onFS init enc L) p img szs t = (t @ map (saved (onFS init enc L) p img) szs, None)"
  using assms
proof (induction szs arbitrary: t)
  case Nil
  then show ?case by simp
next
  case (Cons sz rest)
  let ?lib = "onFS init enc L"
  let ?A = "fsAfter (unicode_ToLower L) enc init"
  let ?r = "resized ?lib img sz"
  let ?q = "outputPath p sz"
  let ?t1 = "t @ [saved ?lib p img sz]"
  have here: "creatable (unicode_ToLower L) enc (?A t) ?r ?q"
    using Cons.prems by simp
  have ok: "imaging_Save ?lib t ?r ?q = None"
    using creatable_saves [OF here] by simp
  have st: "?A ?t1 = fst (fs_Save (unicode_ToLower L) enc (?A t) ?r ?q)"
    by (rule fsAfter_saved)
  have rest: "\<forall>sz\<in>set rest. creatable (unicode_ToLower L) enc (?A ?t1)
      (resized ?lib img sz) (outputPath p sz)"
    unfolding st using Cons.prems by (simp add: creatable_kept)
  have step: "convertSizes ?lib p img (sz # rest) t = convertSizes ?lib p img rest ?t1"
    using ok by (simp add: Let_def saved_def del: onFS_sel)
  show ?case
    using Cons.IH [OF rest] step by simp
qed

lemma resavable_isFile: "resavable uni enc s img q \<Longrightarrow> isFile s (Clean q)"
  by (auto simp: resavable_def split: sum.splits)

lemma names_outputPath:
  "map (\<lambda>sz. Join [Join [Dir p, baseFilename p @ ''_emote_bundle''],
                    baseFilename p @ ''-'' @ Platform sz @ ''-'' @ Name sz @ ''-''
                      @ fmt_d (Width sz) @ ''x'' @ fmt_d (Height sz) @ ''.png'']) emoteSizes
     = map (outputPath p) emoteSizes"
  by (simp add: outputPath_def bundleDir_def filename_def)

lemma written_bundle:
  "written (MkdirAll d m r # map (saved lib p img) szs) = map (outputPath p) szs"
  by (simp add: written_saved)

lemma demoFS_mkdir:
  "fs_MkdirAll demoFS ''cat_emote_bundle'' = (demoFS\<lparr>dirs := [''cat_emote_bundle'']\<rparr>, None)"
  by (subst fs_MkdirAll.simps) (simp add: fs_Stat_def fs_Mkdir_def parentOf_def isDir_def
      isFile_def ENOENT_def demoFS_def Clean_def Dir_def isSep_def cleanStep_def)

lemma demoFS_creatable:
  "\<forall>q\<in>set (map (outputPath ''cat.png'') emoteSizes).
      creatable (\<lambda>s. s) demoEncode (demoFS\<lparr>dirs := [''cat_emote_bundle'']\<rparr>) img q"
  unfolding cat_paths
  by (simp add: creatable_def FormatFromFilename_def TrimPrefix_def formatExts_def demoEncode_def
      Ext_def ToLower_def isASCII_def lowerByte_def isDir_def isFile_def demoFS_def
      Clean_def Dir_def isSep_def cleanStep_def)

lemma demoFS_first:
  "processImage Baseline (onFS demoFS demoEncode (demo [(''cat.png'', pngBytes)] []))
      (newApp\<lparr>selectedFile := ''cat.png''\<rparr>) [] =
     (([] @ [MkdirAll ''cat_emote_bundle'' perm None])
        @ map (saved (onFS demoFS demoEncode (demo [(''cat.png'', pngBytes)] [])) ''cat.png''
                 (pngBytes, 0, 0)) emoteSizes, None)"
proof -
  let ?L = "demo [(''cat.png'', pngBytes)] []"
  let ?lib = "onFS demoFS demoEncode ?L"
  have st: "fsAfter (unicode_ToLower ?L) demoEncode demoFS ([] @ [MkdirAll ''cat_emote_bundle'' perm None])
      = demoFS\<lparr>dirs := [''cat_emote_bundle'']\<rparr>"
    by (simp add: fsAfter_def demoFS_mkdir)
  have "\<forall>sz\<in>set emoteSizes. creatable (unicode_ToLower ?L) demoEncode
      (fsAfter (unicode_ToLower ?L) demoEncode demoFS ([] @ [MkdirAll ''cat_emote_bundle'' perm None]))
      (resized ?lib (pngBytes, 0, 0) sz) (outputPath ''cat.png'' sz)"
    unfolding st using demoFS_creatable by simp
  then have loop: "convertSizes ?lib ''cat.png'' (pngBytes, 0, 0) emoteSizes
      ([] @ [MkdirAll ''cat_emote_bundle'' perm None]) =
        (([] @ [MkdirAll ''cat_emote_bundle'' perm None])
           @ map (saved ?lib ''cat.png'' (pngBytes, 0, 0)) emoteSizes, None)"
    by (rule creatable_loop)
  have m: "os_MkdirAll ?lib [] ''cat_emote_bundle'' perm = None"
    by (simp add: fsAfter_def demoFS_mkdir)
  have d: "decodeImage Baseline ?lib (ToLower (\<lambda>s. s) (Ext ''cat.png'')) pngBytes = Inr (pngBytes, 0, 0)"
    by (simp add: png_ext demoDecode_def magic_png)
  show ?thesis
    using m d loop by (simp add: processImage_def writeBundle_def demoRead_def cat_dir del: onFS_sel decodeImage.simps)
qed

lemma hasMagic_first:
  "hasMagic f b \<Longrightarrow> b \<noteq> [] \<and>
     hd b \<in> set (case f of GIF \<Rightarrow> ''G'' | JPEG \<Rightarrow> [CHR 0xFF] | PNG \<Rightarrow> [CHR 0x89] | BMP \<Rightarrow> ''B''
                   | TIFF \<Rightarrow> ''IM'' | WEBP \<Rightarrow> ''R'')"
  by (cases b; cases f) (auto simp: hasMagic_def match_def)

lemma hasMagic_unique: "hasMagic f b \<Longrightarrow> hasMagic g b \<Longrightarrow> f = g"
  using hasMagic_first [of f b] hasMagic_first [of g b]
  by (cases f; cases g) auto

lemma find_unique:
  assumes "f \<in> set xs" and "P f" and uniq: "\<And>g. P g \<Longrightarrow> g = f"
  shows "List.find P xs = Some f"
  using assms(1)
proof (induction xs)
  case Nil
  then show ?case by simp
next
  case (Cons x xs)
  show ?case
  proof (cases "P x")
    case True
    then have "x = f" by (rule uniq)
    then show ?thesis using True by simp
  next
    case False
    then have "f \<noteq> x" using assms(2) by blast
    then have "f \<in> set xs" using Cons.prems by simp
    then show ?thesis using False Cons.IH by simp
  qed
qed

lemma image_Decode_magic:
  assumes "f \<in> set (registered v lib)" and "hasMagic f b"
  shows "image_Decode v lib b = decoderOf lib f b"
proof -
  have "sniff v lib b = Some f"
    unfolding sniff_def using assms hasMagic_unique by (intro find_unique) auto
  then show ?thesis by (simp add: image_Decode_def)
qed

lemma image_Decode_unknown:
  assumes "\<forall>f\<in>set (registered v lib). \<not> hasMagic f b"
  shows "image_Decode v lib b = Inl ''image: unknown format''"
proof -
  have "sniff v lib b = None"
    unfolding sniff_def using assms by (simp add: find_None_iff)
  then show ?thesis by (simp add: image_Decode_def ErrFormat_def)
qed

lemma webm_no_magic: "\<not> hasMagic f ([CHR 0x1A, CHR 0x45, CHR 0xDF, CHR 0xA3] @ rest)"
  by (cases f) (simp_all add: hasMagic_def match_def)

lemma magic_bmp: "hasMagic BMP bmpBytes"
  by (simp add: hasMagic_def match_def bmpBytes_def)

lemma magic_gif: "hasMagic GIF gifBytes"
  by (simp add: hasMagic_def match_def gifBytes_def)

lemma demo_all_saved:
  assumes "demoRead disk p = Inr bs"
    and "decodeImage v (demo disk []) (ToLower (\<lambda>s. s) (Ext p)) bs = Inr img"
  shows "snd (processImage v (demo disk []) (newApp\<lparr>selectedFile := p\<rparr>) []) = None"
    and "written (fst (processImage v (demo disk []) (newApp\<lparr>selectedFile := p\<rparr>) []))
          = map (outputPath p) emoteSizes"
    and "fst (processImage v (demo disk []) (newApp\<lparr>selectedFile := p\<rparr>) []) ! 1
          = Save (fst img, 28, 28) (outputPath p (emoteSizes ! 0)) None"
proof -
  have run: "processImage v (demo disk []) (newApp\<lparr>selectedFile := p\<rparr>) [] =
      ([] @ MkdirAll (bundleDir p) perm None # map (saved (demo disk []) p img) emoteSizes, None)"
    using assms by (rule demo_run_ok)
  show "snd (processImage v (demo disk []) (newApp\<lparr>selectedFile := p\<rparr>) []) = None"
    by (simp add: run)
  show "written (fst (processImage v (demo disk []) (newApp\<lparr>selectedFile := p\<rparr>) []))
          = map (outputPath p) emoteSizes"
    by (simp add: run written_saved)
  show "fst (processImage v (demo disk []) (newApp\<lparr>selectedFile := p\<rparr>) []) ! 1
          = Save (fst img, 28, 28) (outputPath p (emoteSizes ! 0)) None"
    unfolding run by (simp add: emoteSizes_def saved_def resized_def mkSize_def)
qed

lemma processImage_decoded:
  assumes "os_Open lib t (selectedFile a) = Inr bs"
  shows "processImage v lib a t =
           (case decodeImage v lib (ToLower (unicode_ToLower lib) (Ext (selectedFile a))) bs of
              Inl c \<Rightarrow> (t, Some (DecodeError c))
            | Inr img \<Rightarrow> writeBundle lib (selectedFile a) img t)"
  using assms by (simp add: processImage_def)

lemma anim_path:
  "bundleDir ''ANIM.GIF'' = ''ANIM_emote_bundle''"
  "outputPath ''ANIM.GIF'' (emoteSizes ! 0) = ''ANIM_emote_bundle/ANIM-Discord-Small-28x28.png''"
proof -
  have b: "baseFilename ''ANIM.GIF'' = ''ANIM''"
    by (simp add: baseFilename_def Ext_def Base_def isSep_def TrimSuffix_def HasSuffix_def)
  show d: "bundleDir ''ANIM.GIF'' = ''ANIM_emote_bundle''"
    by (simp add: bundleDir_def b Dir_def Join_def Clean_def isSep_def cleanStep_def)
  show "outputPath ''ANIM.GIF'' (emoteSizes ! 0) = ''ANIM_emote_bundle/ANIM-Discord-Small-28x28.png''"
    by (simp add: emoteSizes_def mkSize_def outputPath_def b d filename_def fmt_d_def dec.simps
        Join_def Clean_def isSep_def cleanStep_def)
qed

lemma saved_fun:
  "saved lib p img =
     (\<lambda>sz. Save (imaging_Fill lib img (Width sz) (Height sz) Center Lanczos)
             (Join [Join [Dir p, baseFilename p @ ''_emote_bundle''],
                    baseFilename p @ ''-'' @ Platform sz @ ''-'' @ Name sz @ ''-''
                      @ fmt_d (Width sz) @ ''x'' @ fmt_d (Height sz) @ ''.png'']) None)"
  by (simp add: fun_eq_iff saved_def resized_def outputPath_def bundleDir_def filename_def)

section \<open>The size catalog (C6)\<close>

text \<open>
  C6. The catalog is the constant \<open>emoteSizes\<close>, which no function of the program
  assigns to. In order, its entries are Discord Small 28x28, Medium 32x32, Large 48x48,
  Animated 128x128, Twitch 1.0 28x28, 2.0 56x56, 3.0 112x112, and 7TV 1x 32x32, 2x 64x64,
  3x 96x96, 4x 128x128. No two entries have the same platform and variant, and for any
  base name no two entries get the same output file name.
\<close>

theorem emoteSizes_catalog:
  "map (\<lambda>s. (Platform s, Name s, Width s, Height s)) emoteSizes =
     [(''Discord'', ''Small'', 28, 28), (''Discord'', ''Medium'', 32, 32),
      (''Discord'', ''Large'', 48, 48), (''Discord'', ''Animated'', 128, 128),
      (''Twitch'', ''1.0'', 28, 28), (''Twitch'', ''2.0'', 56, 56),
      (''Twitch'', ''3.0'', 112, 112),
      (''7TV'', ''1x'', 32, 32), (''7TV'', ''2x'', 64, 64), (''7TV'', ''3x'', 96, 96),
      (''7TV'', ''4x'', 128, 128)]
   \<and> distinct (map (\<lambda>s. (Platform s, Name s)) emoteSizes)
   \<and> distinct (map (filename base) emoteSizes)"
  by (simp add: emoteSizes_def mkSize_def filename_def fmt_d_def dec.simps)

theorem emoteSizes_catalog_witness:
  "length emoteSizes = 11
   \<and> filename ''cat'' (emoteSizes ! 0) = ''cat-Discord-Small-28x28.png''
   \<and> filename ''cat'' (emoteSizes ! 4) = ''cat-Twitch-1.0-28x28.png''
   \<and> filename ''cat'' (emoteSizes ! 0) \<noteq> filename ''cat'' (emoteSizes ! 4)"
proof -
  have d: "distinct (map (filename ''cat'') emoteSizes)"
    using emoteSizes_catalog [of "''cat''"] by blast
  have n: "length emoteSizes = 11"
    by (simp add: emoteSizes_def)
  have "map (filename ''cat'') emoteSizes ! 0 \<noteq> map (filename ''cat'') emoteSizes ! 4"
    using nth_eq_iff_index_eq [OF d, of 0 4] n by simp
  then have "filename ''cat'' (emoteSizes ! 0) \<noteq> filename ''cat'' (emoteSizes ! 4)"
    using n by simp
  moreover have "filename ''cat'' (emoteSizes ! 0) = ''cat-Discord-Small-28x28.png''"
    by (simp add: emoteSizes_def mkSize_def filename_def fmt_d_def dec.simps)
  moreover have "filename ''cat'' (emoteSizes ! 4) = ''cat-Twitch-1.0-28x28.png''"
    by (simp add: emoteSizes_def mkSize_def filename_def fmt_d_def dec.simps)
  ultimately show ?thesis using n by blast
qed

section \<open>Selecting a file (C3)\<close>

text \<open>
  C3. \<open>selectFile\<close> accepts a chosen path exactly when its extension, lower-cased, is
  one of \<open>.jpg .jpeg .png .gif\<close> in the first version and one of
  \<open>.jpg .jpeg .png .gif .webp .webm\<close> in the second. Accepting stores the path and
  enables the convert button without a dialog; rejecting shows the error and changes
  nothing else. The test looks at the path only, never at the bytes of the file.
\<close>

theorem selectFile_checks_extension:
  "(let ok = (ToLower (unicode_ToLower lib) (Ext p) \<in>
               (case v of
                  Baseline \<Rightarrow> {''.jpg'', ''.jpeg'', ''.png'', ''.gif''}
                | Extended \<Rightarrow> {''.jpg'', ''.jpeg'', ''.png'', ''.gif'', ''.webp'', ''.webm''}));
        a' = selectFile v lib t a (Chosen p)
    in (window a' = window a) = ok
       \<and> (a' = showError ''Invalid file type'' (invalidType v) a) = (\<not> ok)
       \<and> selectedFile a' = (if ok then p else selectedFile a)
       \<and> convertBtn a' = (if ok then True else convertBtn a))"
proof -
  let ?ok = "index (validExts v) (ToLower (unicode_ToLower lib) (Ext p))"
  let ?a' = "selectFile v lib t a (Chosen p)"
  have w: "(window ?a' = window a) = ?ok"
    by (simp add: Let_def showError_def loadPreview_def split: sum.splits variant.splits)
  have r: "(?a' = showError ''Invalid file type'' (invalidType v) a) = (\<not> ?ok)"
    using w by (auto simp: Let_def showError_def)
  have s: "selectedFile ?a' = (if ?ok then p else selectedFile a)"
    by (simp add: Let_def showError_def loadPreview_def split: sum.splits variant.splits)
  have b: "convertBtn ?a' = (if ?ok then True else convertBtn a)"
    by (simp add: Let_def showError_def loadPreview_def split: sum.splits variant.splits)
  have eq: "?ok = (ToLower (unicode_ToLower lib) (Ext p) \<in>
               (case v of
                  Baseline \<Rightarrow> {''.jpg'', ''.jpeg'', ''.png'', ''.gif''}
                | Extended \<Rightarrow> {''.jpg'', ''.jpeg'', ''.png'', ''.gif'', ''.webp'', ''.webm''}))"
    by (rule index_validExts)
  show ?thesis
    unfolding Let_def using w r s b unfolding eq by blast
qed

theorem selectFile_checks_extension_witness:
  "window (selectFile Baseline (demo [] []) [] newApp (Chosen ''clip.mp4'')) \<noteq> window newApp
   \<and> window (selectFile Extended (demo [] []) [] newApp (Chosen ''clip.mp4'')) \<noteq> window newApp
   \<and> window (selectFile Baseline (demo [] []) [] newApp (Chosen ''art.jpeg'')) = window newApp
   \<and> window (selectFile Extended (demo [] []) [] newApp (Chosen ''art.jpeg'')) = window newApp
   \<and> selectedFile (selectFile Baseline (demo [] []) [] newApp (Chosen ''ART.JPEG'')) = ''ART.JPEG''
   \<and> window (selectFile Baseline (demo [] []) [] newApp (Chosen ''clip.webm'')) \<noteq> window newApp
   \<and> window (selectFile Extended (demo [] []) [] newApp (Chosen ''clip.webm'')) = window newApp"
proof -
  have e: "Ext ''clip.mp4'' = ''.mp4''" "Ext ''art.jpeg'' = ''.jpeg''"
    "Ext ''ART.JPEG'' = ''.JPEG''" "Ext ''clip.webm'' = ''.webm''"
    by (simp_all add: Ext_def isSep_def)
  have l: "ToLower (\<lambda>s. s) ''.mp4'' = ''.mp4''" "ToLower (\<lambda>s. s) ''.jpeg'' = ''.jpeg''"
    "ToLower (\<lambda>s. s) ''.JPEG'' = ''.jpeg''" "ToLower (\<lambda>s. s) ''.webm'' = ''.webm''"
    by (simp_all add: ToLower_def isASCII_def lowerByte_def)
  note th = selectFile_checks_extension [where lib = "demo [] []" and t = "[]" and a = newApp]
  have 1: "window (selectFile Baseline (demo [] []) [] newApp (Chosen ''clip.mp4'')) \<noteq> window newApp"
    using th [of "''clip.mp4''" Baseline] by (simp add: Let_def e l showError_def del: selectFile.simps)
  have 2: "window (selectFile Extended (demo [] []) [] newApp (Chosen ''clip.mp4'')) \<noteq> window newApp"
    using th [of "''clip.mp4''" Extended] by (simp add: Let_def e l showError_def del: selectFile.simps)
  have 3: "window (selectFile Baseline (demo [] []) [] newApp (Chosen ''art.jpeg'')) = window newApp"
    using th [of "''art.jpeg''" Baseline] by (simp add: Let_def e l showError_def del: selectFile.simps)
  have 4: "window (selectFile Extended (demo [] []) [] newApp (Chosen ''art.jpeg'')) = window newApp"
    using th [of "''art.jpeg''" Extended] by (simp add: Let_def e l showError_def del: selectFile.simps)
  have 5: "selectedFile (selectFile Baseline (demo [] []) [] newApp (Chosen ''ART.JPEG'')) = ''ART.JPEG''"
    using th [of "''ART.JPEG''" Baseline] by (simp add: Let_def e l showError_def del: selectFile.simps)
  have 6: "window (selectFile Baseline (demo [] []) [] newApp (Chosen ''clip.webm'')) \<noteq> window newApp"
    using th [of "''clip.webm''" Baseline] by (simp add: Let_def e l showError_def del: selectFile.simps)
  have 7: "window (selectFile Extended (demo [] []) [] newApp (Chosen ''clip.webm'')) = window newApp"
    using th [of "''clip.webm''" Extended] by (simp add: Let_def e l showError_def del: selectFile.simps)
  show ?thesis using 1 2 3 4 5 6 7 by blast
qed

section \<open>A successful run (C1)\<close>

text \<open>
  C1. When \<open>processImage\<close> returns no error, the input was opened and decoded, and
  what the run did is exactly: create the directory
  \<open>Join(Dir(path), base + "_emote_bundle")\<close>, then for each entry of the catalog, in
  order, one successful save of the image filled to the entry's width and height, at
  \<open>Join(bundleDir, base-platform-variant-WxH.png)\<close>. These are eleven different
  paths, each with extension \<open>.png\<close> and with the formatted name as its last element.
  For \<open>cat.png\<close> they are the eleven files under \<open>cat_emote_bundle\<close>.
\<close>

theorem processImage_writes_bundle:
  assumes "processImage v lib a t = (t', None)"
  shows "(let p = selectedFile a;
              base = baseFilename p;
              dir = Join [Dir p, base @ ''_emote_bundle'']
          in (\<exists>file img.
                os_Open lib t p = Inr file
                \<and> decodeImage v lib (ToLower (unicode_ToLower lib) (Ext p)) file = Inr img
                \<and> t' = t @ MkdirAll dir perm None
                         # map (\<lambda>sz. Save (imaging_Fill lib img (Width sz) (Height sz) Center Lanczos)
                                       (Join [dir, base @ ''-'' @ Platform sz @ ''-'' @ Name sz @ ''-''
                                                @ fmt_d (Width sz) @ ''x'' @ fmt_d (Height sz) @ ''.png''])
                                       None) emoteSizes)
             \<and> written t' = written t @ map (outputPath p) emoteSizes
             \<and> length emoteSizes = 11
             \<and> distinct (map (outputPath p) emoteSizes)
             \<and> (\<forall>sz\<in>set emoteSizes.
                   Ext (outputPath p sz) = ''.png''
                   \<and> Base (outputPath p sz) = Base (filename base sz)
                   \<and> (Base p \<noteq> ''/'' \<longrightarrow> Base (outputPath p sz) = filename base sz)))"
proof -
  let ?p = "selectedFile a"
  obtain bs img where run:
    "os_Open lib t ?p = Inr bs"
    "decodeImage v lib (ToLower (unicode_ToLower lib) (Ext ?p)) bs = Inr img"
    "t' = t @ MkdirAll (bundleDir ?p) perm None # map (saved lib ?p img) emoteSizes"
    using processImage_None [OF assms] by blast
  have calls: "map (saved lib ?p img) emoteSizes =
      map (\<lambda>sz. Save (imaging_Fill lib img (Width sz) (Height sz) Center Lanczos)
                  (Join [Join [Dir ?p, baseFilename ?p @ ''_emote_bundle''],
                         baseFilename ?p @ ''-'' @ Platform sz @ ''-'' @ Name sz @ ''-''
                           @ fmt_d (Width sz) @ ''x'' @ fmt_d (Height sz) @ ''.png''])
                  None) emoteSizes"
    by (simp add: saved_def resized_def outputPath_def bundleDir_def filename_def)
  have 1: "\<exists>file img.
      os_Open lib t ?p = Inr file
      \<and> decodeImage v lib (ToLower (unicode_ToLower lib) (Ext ?p)) file = Inr img
      \<and> t' = t @ MkdirAll (Join [Dir ?p, baseFilename ?p @ ''_emote_bundle'']) perm None
               # map (\<lambda>sz. Save (imaging_Fill lib img (Width sz) (Height sz) Center Lanczos)
                  (Join [Join [Dir ?p, baseFilename ?p @ ''_emote_bundle''],
                         baseFilename ?p @ ''-'' @ Platform sz @ ''-'' @ Name sz @ ''-''
                           @ fmt_d (Width sz) @ ''x'' @ fmt_d (Height sz) @ ''.png''])
                  None) emoteSizes"
    using run calls by (simp add: bundleDir_def)
  have 2: "written t' = written t @ map (outputPath ?p) emoteSizes"
    using run(3) by (simp add: written_append written_saved)
  have 3: "length emoteSizes = 11"
    by (simp add: emoteSizes_def)
  have 4: "distinct (map (outputPath ?p) emoteSizes)"
    by (rule distinct_outputPath)
  have 5: "\<forall>sz\<in>set emoteSizes.
       Ext (outputPath ?p sz) = ''.png''
       \<and> Base (outputPath ?p sz) = Base (filename (baseFilename ?p) sz)
       \<and> (Base ?p \<noteq> ''/'' \<longrightarrow> Base (outputPath ?p sz) = filename (baseFilename ?p) sz)"
    using outputPath_Base outputPath_Base_filename by blast
  show ?thesis
    unfolding Let_def using 1 2 3 4 5 by blast
qed

theorem processImage_writes_bundle_witness:
  "snd (processImage Baseline (demo [(''cat.png'', pngBytes)] [])
          (newApp\<lparr>selectedFile := ''cat.png''\<rparr>) []) = None
   \<and> written (fst (processImage Baseline (demo [(''cat.png'', pngBytes)] [])
          (newApp\<lparr>selectedFile := ''cat.png''\<rparr>) [])) =
     [''cat_emote_bundle/cat-Discord-Small-28x28.png'',
      ''cat_emote_bundle/cat-Discord-Medium-32x32.png'',
      ''cat_emote_bundle/cat-Discord-Large-48x48.png'',
      ''cat_emote_bundle/cat-Discord-Animated-128x128.png'',
      ''cat_emote_bundle/cat-Twitch-1.0-28x28.png'',
      ''cat_emote_bundle/cat-Twitch-2.0-56x56.png'',
      ''cat_emote_bundle/cat-Twitch-3.0-112x112.png'',
      ''cat_emote_bundle/cat-7TV-1x-32x32.png'',
      ''cat_emote_bundle/cat-7TV-2x-64x64.png'',
      ''cat_emote_bundle/cat-7TV-3x-96x96.png'',
      ''cat_emote_bundle/cat-7TV-4x-128x128.png'']
   \<and> written (fst (processImage Baseline (demo [(''/home/u/pics/cat.png'', pngBytes)] [])
          (newApp\<lparr>selectedFile := ''/home/u/pics/cat.png''\<rparr>) [])) ! 0 =
     ''/home/u/pics/cat_emote_bundle/cat-Discord-Small-28x28.png''"
proof -
  let ?lib = "demo [(''cat.png'', pngBytes)] []"
  let ?a = "newApp\<lparr>selectedFile := ''cat.png''\<rparr>"
  have e: "ToLower (\<lambda>s. s) (Ext ''cat.png'') = ''.png''"
    by (simp add: Ext_def isSep_def ToLower_def isASCII_def lowerByte_def)
  have "decodeImage Baseline ?lib (ToLower (\<lambda>s. s) (Ext ''cat.png'')) pngBytes = Inr (pngBytes, 0, 0)"
    by (simp add: e demoDecode_def magic_png)
  then have "\<exists>t'. processImage Baseline ?lib ?a [] = (t', None)"
    using demo_run_ok [of "[(''cat.png'', pngBytes)]" "''cat.png''" pngBytes Baseline _ newApp "[]"]
    by (simp add: demoRead_def)
  then obtain t' where run: "processImage Baseline ?lib ?a [] = (t', None)"
    by blast
  have "written t' = map (outputPath ''cat.png'') emoteSizes"
    using processImage_writes_bundle [OF run] by (simp add: Let_def)
  then have here: "snd (processImage Baseline ?lib ?a []) = None
      \<and> written (fst (processImage Baseline ?lib ?a [])) = map (outputPath ''cat.png'') emoteSizes"
    using run by simp
  let ?q = "''/home/u/pics/cat.png''"
  have qe: "ToLower (\<lambda>s. s) (Ext ?q) = ''.png''"
    by (simp add: Ext_def isSep_def ToLower_def isASCII_def lowerByte_def)
  have qo: "demoRead [(?q, pngBytes)] ?q = Inr pngBytes"
    by (simp add: demoRead_def)
  have qd: "decodeImage Baseline (demo [(?q, pngBytes)] []) (ToLower (\<lambda>s. s) (Ext ?q)) pngBytes
      = Inr (pngBytes, 0, 0)"
    by (simp add: qe demoDecode_def magic_png)
  have qb: "baseFilename ?q = ''cat''"
    by (simp add: baseFilename_def Ext_def Base_def isSep_def TrimSuffix_def HasSuffix_def)
  have qdir: "bundleDir ?q = ''/home/u/pics/cat_emote_bundle''"
    by (simp add: bundleDir_def qb Dir_def Join_def Clean_def isSep_def cleanStep_def)
  have qp: "outputPath ?q (emoteSizes ! 0) = ''/home/u/pics/cat_emote_bundle/cat-Discord-Small-28x28.png''"
    by (simp add: emoteSizes_def mkSize_def outputPath_def qb qdir filename_def fmt_d_def dec.simps
        Join_def Clean_def isSep_def cleanStep_def)
  have there: "written (fst (processImage Baseline (demo [(?q, pngBytes)] [])
      (newApp\<lparr>selectedFile := ?q\<rparr>) [])) ! 0
      = ''/home/u/pics/cat_emote_bundle/cat-Discord-Small-28x28.png''"
    unfolding demo_all_saved(2) [OF qo qd] using qp by (simp add: emoteSizes_def)
  show ?thesis
    using here there by (simp only: cat_paths simp_thms)
qed

section \<open>A failing save (C4)\<close>

text \<open>
  C4. Let the input open and decode and the bundle directory be created. If
  \<open>imaging.Save\<close> returns nil for the catalog entries before entry \<open>i\<close> and an error
  for entry \<open>i\<close>, then \<open>processImage\<close> stops there: the history ends with the failed
  save of entry \<open>i\<close>, no later entry is filled or saved, and nothing is removed, so the
  files of the entries before \<open>i\<close> stay written. The error returned, and shown by
  \<open>convertAndSave\<close>, is that of entry \<open>i\<close>: \<open>failed to save <name>: <cause>\<close>.
  (\<open>imaging.Fill\<close> returns no error, so a save is the only step of the loop that can
  fail.)
\<close>

theorem save_failure_aborts:
  assumes "os_Open lib t (selectedFile a) = Inr bs"
    and "decodeImage v lib (ToLower (unicode_ToLower lib) (Ext (selectedFile a))) bs = Inr img"
    and "os_MkdirAll lib t (bundleDir (selectedFile a)) perm = None"
    and "i < length emoteSizes"
    and "\<forall>j<i. saveAt lib (selectedFile a) img emoteSizes
                  (t @ [MkdirAll (bundleDir (selectedFile a)) perm None]) j = None"
    and "saveAt lib (selectedFile a) img emoteSizes
           (t @ [MkdirAll (bundleDir (selectedFile a)) perm None]) i = Some c"
  shows "(let p = selectedFile a;
              name = filename (baseFilename p) (emoteSizes ! i);
              t' = t @ MkdirAll (bundleDir p) perm None
                     # map (saved lib p img) (take i emoteSizes)
                     @ [Save (resized lib img (emoteSizes ! i)) (outputPath p (emoteSizes ! i)) (Some c)]
          in processImage v lib a t = (t', Some (SaveError name c))
             \<and> written t' = written t @ map (outputPath p) (take i emoteSizes)
             \<and> (p \<noteq> [] \<longrightarrow>
                  convertAndSave v lib (a, t) =
                    (a\<lparr>convertBtn := True,
                       statusLabel := ''Error: failed to save '' @ name @ '': '' @ c,
                       window := window a @ [ShowError (''failed to save '' @ name @ '': '' @ c)]\<rparr>,
                     t')))"
proof -
  let ?p = "selectedFile a"
  let ?name = "filename (baseFilename ?p) (emoteSizes ! i)"
  let ?t0 = "t @ [MkdirAll (bundleDir ?p) perm None]"
  let ?t' = "t @ MkdirAll (bundleDir ?p) perm None
               # map (saved lib ?p img) (take i emoteSizes)
               @ [Save (resized lib img (emoteSizes ! i)) (outputPath ?p (emoteSizes ! i)) (Some c)]"
  have loop: "convertSizes lib ?p img emoteSizes ?t0 =
      (?t0 @ map (saved lib ?p img) (take i emoteSizes)
         @ [Save (resized lib img (emoteSizes ! i)) (outputPath ?p (emoteSizes ! i)) (Some c)],
       Some (SaveError ?name c))"
    by (rule convertSizes_fail [OF assms(4) assms(5) assms(6)])
  have run: "processImage v lib a t = (?t', Some (SaveError ?name c))"
    using assms(1,2,3) loop by (simp add: processImage_def writeBundle_def)
  have w: "written ?t' = written t @ map (outputPath ?p) (take i emoteSizes)"
    by (simp add: written_append written_saved)
  have "?p \<noteq> [] \<longrightarrow>
      convertAndSave v lib (a, t) =
        (a\<lparr>convertBtn := True,
           statusLabel := ''Error: failed to save '' @ ?name @ '': '' @ c,
           window := window a @ [ShowError (''failed to save '' @ ?name @ '': '' @ c)]\<rparr>, ?t')"
    using convertAndSave_error [OF run] by simp
  then show ?thesis
    unfolding Let_def using run w by blast
qed

theorem save_failure_aborts_witness:
  "processImage Baseline
      (demo [(''cat.png'', pngBytes)] [''cat_emote_bundle/cat-Discord-Large-48x48.png''])
      (newApp\<lparr>selectedFile := ''cat.png''\<rparr>) [] =
     ([MkdirAll ''cat_emote_bundle'' 493 None,
       Save (pngBytes, 28, 28) ''cat_emote_bundle/cat-Discord-Small-28x28.png'' None,
       Save (pngBytes, 32, 32) ''cat_emote_bundle/cat-Discord-Medium-32x32.png'' None,
       Save (pngBytes, 48, 48) ''cat_emote_bundle/cat-Discord-Large-48x48.png''
         (Some ''permission denied'')],
      Some (SaveError ''cat-Discord-Large-48x48.png'' ''permission denied''))"
proof -
  let ?lib = "demo [(''cat.png'', pngBytes)] [''cat_emote_bundle/cat-Discord-Large-48x48.png'']"
  let ?a = "newApp\<lparr>selectedFile := ''cat.png''\<rparr>"
  let ?img = "(pngBytes, 0::int, 0::int)"
  have p: "outputPath ''cat.png'' (emoteSizes ! 0) = ''cat_emote_bundle/cat-Discord-Small-28x28.png''"
    "outputPath ''cat.png'' (emoteSizes ! 1) = ''cat_emote_bundle/cat-Discord-Medium-32x32.png''"
    "outputPath ''cat.png'' (emoteSizes ! 2) = ''cat_emote_bundle/cat-Discord-Large-48x48.png''"
    using cat_paths by (simp_all add: emoteSizes_def)
  have o: "os_Open ?lib [] (selectedFile ?a) = Inr pngBytes"
    by (simp add: demoRead_def)
  have d: "decodeImage Baseline ?lib (ToLower (unicode_ToLower ?lib) (Ext (selectedFile ?a))) pngBytes
      = Inr ?img"
    by (simp add: png_ext demo_decode_png del: decodeImage.simps)
  have m: "os_MkdirAll ?lib [] (bundleDir (selectedFile ?a)) perm = None"
    by simp
  have i: "2 < length emoteSizes"
    by (simp add: emoteSizes_def)
  have before: "\<forall>j<2. saveAt ?lib (selectedFile ?a) ?img emoteSizes
        ([] @ [MkdirAll (bundleDir (selectedFile ?a)) perm None]) j = None"
    using p by (simp add: saveAt_def less_2_cases_iff)
  have at: "saveAt ?lib (selectedFile ?a) ?img emoteSizes
        ([] @ [MkdirAll (bundleDir (selectedFile ?a)) perm None]) 2 = Some ''permission denied''"
    using p by (simp add: saveAt_def)
  have n: "filename (baseFilename ''cat.png'') (emoteSizes ! 2) = ''cat-Discord-Large-48x48.png''"
    by (simp add: cat_base emoteSizes_def mkSize_def filename_def fmt_d_def dec.simps)
  have s: "map (saved ?lib ''cat.png'' ?img) (take 2 emoteSizes) =
      [Save (pngBytes, 28, 28) ''cat_emote_bundle/cat-Discord-Small-28x28.png'' None,
       Save (pngBytes, 32, 32) ''cat_emote_bundle/cat-Discord-Medium-32x32.png'' None]"
    using p by (simp add: emoteSizes_def saved_def resized_def mkSize_def)
  have r: "resized ?lib ?img (emoteSizes ! 2) = (pngBytes, 48, 48)"
    by (simp add: emoteSizes_def resized_def mkSize_def)
  show ?thesis
    using save_failure_aborts [OF o d m i before at]
    by (simp add: Let_def n s r p cat_dir perm_def)
qed

section \<open>A failing decode (C5)\<close>

text \<open>
  C5. If the input opens but its bytes do not decode, \<open>processImage\<close> returns
  \<open>failed to decode image: <cause>\<close> and the history is unchanged: no directory was
  created and no file saved, because the decode comes before \<open>os.MkdirAll\<close>.
  \<open>convertAndSave\<close> shows that error and enables the button again.
\<close>

theorem decode_failure_writes_nothing:
  assumes "os_Open lib t (selectedFile a) = Inr bs"
    and "decodeImage v lib (ToLower (unicode_ToLower lib) (Ext (selectedFile a))) bs = Inl c"
  shows "processImage v lib a t = (t, Some (DecodeError c))
         \<and> (selectedFile a \<noteq> [] \<longrightarrow>
              convertAndSave v lib (a, t) =
                (a\<lparr>convertBtn := True,
                   statusLabel := ''Error: failed to decode image: '' @ c,
                   window := window a @ [ShowError (''failed to decode image: '' @ c)]\<rparr>, t))"
proof -
  have run: "processImage v lib a t = (t, Some (DecodeError c))"
    using assms by (simp add: processImage_def)
  show ?thesis
    using run convertAndSave_error [OF run] by simp
qed

theorem decode_failure_writes_nothing_witness:
  "processImage Baseline (demo [(''bad.png'', garbage)] [])
      (newApp\<lparr>selectedFile := ''bad.png''\<rparr>) [] = ([], Some (DecodeError ''invalid format''))
   \<and> snd (convertAndSave Baseline (demo [(''bad.png'', garbage)] [])
             (newApp\<lparr>selectedFile := ''bad.png''\<rparr>, [])) = []
   \<and> statusLabel (fst (convertAndSave Baseline (demo [(''bad.png'', garbage)] [])
             (newApp\<lparr>selectedFile := ''bad.png''\<rparr>, [])))
       = ''Error: failed to decode image: invalid format''"
proof -
  let ?lib = "demo [(''bad.png'', garbage)] []"
  let ?a = "newApp\<lparr>selectedFile := ''bad.png''\<rparr>"
  have o: "os_Open ?lib [] (selectedFile ?a) = Inr garbage"
    by (simp add: demoRead_def)
  have e: "ToLower (\<lambda>s. s) (Ext ''bad.png'') = ''.png''"
    by (simp add: Ext_def isSep_def ToLower_def isASCII_def lowerByte_def)
  have s: "\<not> hasMagic PNG garbage"
    by (simp add: hasMagic_def match_def garbage_def)
  have d: "decodeImage Baseline ?lib (ToLower (unicode_ToLower ?lib) (Ext (selectedFile ?a))) garbage
      = Inl ''invalid format''"
    by (simp add: e demoDecode_def s)
  show ?thesis
    using decode_failure_writes_nothing [OF o d] by simp
qed

section \<open>What a successful run reports (C8)\<close>

text \<open>
  C8, as stated (the run returns the bundle directory and the list of written paths to
  its caller), does not hold: \<open>processImage\<close> returns only an \<open>error\<close>, which is nil
  on success. Two successful runs on \<open>cat.png\<close> and \<open>dog.png\<close> return the same value
  and leave the same label and dialog, although their bundle directories differ.
\<close>

theorem convert_reports_no_paths:
  "snd (processImage Baseline (demo [(''cat.png'', pngBytes), (''dog.png'', pngBytes)] [])
          (newApp\<lparr>selectedFile := ''cat.png''\<rparr>) []) = None
   \<and> snd (processImage Baseline (demo [(''cat.png'', pngBytes), (''dog.png'', pngBytes)] [])
          (newApp\<lparr>selectedFile := ''dog.png''\<rparr>) []) = None
   \<and> statusLabel (fst (convertAndSave Baseline (demo [(''cat.png'', pngBytes), (''dog.png'', pngBytes)] [])
          (newApp\<lparr>selectedFile := ''cat.png''\<rparr>, [])))
     = statusLabel (fst (convertAndSave Baseline (demo [(''cat.png'', pngBytes), (''dog.png'', pngBytes)] [])
          (newApp\<lparr>selectedFile := ''dog.png''\<rparr>, [])))
   \<and> window (fst (convertAndSave Baseline (demo [(''cat.png'', pngBytes), (''dog.png'', pngBytes)] [])
          (newApp\<lparr>selectedFile := ''cat.png''\<rparr>, [])))
     = window (fst (convertAndSave Baseline (demo [(''cat.png'', pngBytes), (''dog.png'', pngBytes)] [])
          (newApp\<lparr>selectedFile := ''dog.png''\<rparr>, [])))
   \<and> bundleDir ''cat.png'' = ''cat_emote_bundle''
   \<and> bundleDir ''dog.png'' = ''dog_emote_bundle''"
proof -
  let ?lib = "demo [(''cat.png'', pngBytes), (''dog.png'', pngBytes)] []"
  have cat: "processImage Baseline ?lib (newApp\<lparr>selectedFile := ''cat.png''\<rparr>) [] =
        ([] @ MkdirAll (bundleDir ''cat.png'') perm None
           # map (saved ?lib ''cat.png'' (pngBytes, 0, 0)) emoteSizes, None)"
    by (rule demo_png_run) simp
  have dog: "processImage Baseline ?lib (newApp\<lparr>selectedFile := ''dog.png''\<rparr>) [] =
        ([] @ MkdirAll (bundleDir ''dog.png'') perm None
           # map (saved ?lib ''dog.png'' (pngBytes, 0, 0)) emoteSizes, None)"
    by (rule demo_png_run) simp
  have "statusLabel (fst (convertAndSave Baseline ?lib (newApp\<lparr>selectedFile := ''cat.png''\<rparr>, [])))
      = ''Conversion completed successfully!''"
    "window (fst (convertAndSave Baseline ?lib (newApp\<lparr>selectedFile := ''cat.png''\<rparr>, [])))
      = [ShowInformation ''Success'' ''All emote sizes have been created and saved!'']"
    using convertAndSave_success [OF cat] by (simp_all add: newApp_def)
  moreover have "statusLabel (fst (convertAndSave Baseline ?lib (newApp\<lparr>selectedFile := ''dog.png''\<rparr>, [])))
      = ''Conversion completed successfully!''"
    "window (fst (convertAndSave Baseline ?lib (newApp\<lparr>selectedFile := ''dog.png''\<rparr>, [])))
      = [ShowInformation ''Success'' ''All emote sizes have been created and saved!'']"
    using convertAndSave_success [OF dog] by (simp_all add: newApp_def)
  ultimately show ?thesis
    using cat dog cat_dir dog_dir by simp
qed

text \<open>
  C8, amended. On success \<open>processImage\<close> returns nil and \<open>convertAndSave\<close> sets the
  label to \<open>Conversion completed successfully!\<close>, enables the button and shows the
  dialog \<open>All emote sizes have been created and saved!\<close>; no path is reported. The
  files the run wrote are those of the catalog, in catalog order.
\<close>

theorem convert_success_report:
  assumes "processImage v lib a t = (t', None)" and "selectedFile a \<noteq> []"
  shows "convertAndSave v lib (a, t) =
           (a\<lparr>statusLabel := ''Conversion completed successfully!'',
              convertBtn := True,
              window := window a @
                [ShowInformation ''Success'' ''All emote sizes have been created and saved!'']\<rparr>,
            t')
         \<and> written t' = written t @ map (outputPath (selectedFile a)) emoteSizes"
proof -
  obtain img where "t' = t @ MkdirAll (bundleDir (selectedFile a)) perm None
                           # map (saved lib (selectedFile a) img) emoteSizes"
    using processImage_None [OF assms(1)] by blast
  then have "written t' = written t @ map (outputPath (selectedFile a)) emoteSizes"
    by (simp add: written_append written_saved)
  then show ?thesis
    using convertAndSave_success [OF assms] by simp
qed

theorem convert_success_report_witness:
  "statusLabel (fst (convertAndSave Baseline (demo [(''cat.png'', pngBytes)] [])
      (newApp\<lparr>selectedFile := ''cat.png''\<rparr>, []))) = ''Conversion completed successfully!''
   \<and> window (fst (convertAndSave Baseline (demo [(''cat.png'', pngBytes)] [])
      (newApp\<lparr>selectedFile := ''cat.png''\<rparr>, [])))
     = [ShowInformation ''Success'' ''All emote sizes have been created and saved!'']
   \<and> length (written (snd (convertAndSave Baseline (demo [(''cat.png'', pngBytes)] [])
      (newApp\<lparr>selectedFile := ''cat.png''\<rparr>, [])))) = 11"
proof -
  have run: "processImage Baseline (demo [(''cat.png'', pngBytes)] [])
      (newApp\<lparr>selectedFile := ''cat.png''\<rparr>) [] =
        ([] @ MkdirAll (bundleDir ''cat.png'') perm None
           # map (saved (demo [(''cat.png'', pngBytes)] []) ''cat.png'' (pngBytes, 0, 0)) emoteSizes, None)"
    by (rule demo_png_run) simp
  have ne: "selectedFile (newApp\<lparr>selectedFile := ''cat.png''\<rparr>) \<noteq> []"
    by simp
  show ?thesis
    using convert_success_report [OF run ne] by (simp add: newApp_def emoteSizes_def)
qed

section \<open>Which decoder reads the file (C7)\<close>

text \<open>
  C7, as stated (the fall-back detects the formats jpeg, png, gif and webp only), does
  not hold: \<open>image.Decode\<close> detects every registered format, and importing
  \<open>imaging\<close> registers bmp and tiff as well. In the second version \<open>selectFile\<close>
  accepts \<open>scan.webm\<close>; when the file holds BMP bytes, which the jpeg, png, gif and webp
  decoders all reject, the run decodes it and writes the eleven files.
\<close>

theorem bmp_is_sniffed:
  "selectedFile (selectFile Extended (demo [(''scan.webm'', bmpBytes)] []) [] newApp (Chosen ''scan.webm''))
     = ''scan.webm''
   \<and> snd (processImage Extended (demo [(''scan.webm'', bmpBytes)] [])
            (newApp\<lparr>selectedFile := ''scan.webm''\<rparr>) []) = None
   \<and> length (written (fst (processImage Extended (demo [(''scan.webm'', bmpBytes)] [])
            (newApp\<lparr>selectedFile := ''scan.webm''\<rparr>) []))) = 11
   \<and> jpeg_Decode (demo [(''scan.webm'', bmpBytes)] []) bmpBytes = Inl ''invalid format''
   \<and> png_Decode (demo [(''scan.webm'', bmpBytes)] []) bmpBytes = Inl ''invalid format''
   \<and> gif_Decode (demo [(''scan.webm'', bmpBytes)] []) bmpBytes = Inl ''gif: bad header''
   \<and> webp_Decode (demo [(''scan.webm'', bmpBytes)] []) bmpBytes = Inl ''invalid format''"
proof -
  let ?lib = "demo [(''scan.webm'', bmpBytes)] []"
  have e: "ToLower (\<lambda>s. s) (Ext ''scan.webm'') = ''.webm''"
    by (simp add: Ext_def isSep_def ToLower_def isASCII_def lowerByte_def)
  have sel: "selectedFile (selectFile Extended ?lib [] newApp (Chosen ''scan.webm'')) = ''scan.webm''"
    by (simp add: e index_def Let_def)
  have no: "\<not> hasMagic JPEG bmpBytes" "\<not> hasMagic PNG bmpBytes" "\<not> hasMagic GIF bmpBytes"
    "\<not> hasMagic WEBP bmpBytes"
    by (simp_all add: hasMagic_def match_def bmpBytes_def)
  have "image_Decode Extended ?lib bmpBytes = decoderOf ?lib BMP bmpBytes"
    by (rule image_Decode_magic) (simp_all add: registered_def magic_bmp)
  then have d: "decodeImage Extended ?lib (ToLower (\<lambda>s. s) (Ext ''scan.webm'')) bmpBytes
      = Inr (bmpBytes, 0, 0)"
    by (simp add: e demoDecode_def magic_bmp)
  have o: "demoRead [(''scan.webm'', bmpBytes)] ''scan.webm'' = Inr bmpBytes"
    by (simp add: demoRead_def)
  have n: "length (written (fst (processImage Extended ?lib
      (newApp\<lparr>selectedFile := ''scan.webm''\<rparr>) []))) = 11"
    unfolding demo_all_saved(2) [OF o d] by (simp add: emoteSizes_def)
  have dec: "jpeg_Decode ?lib bmpBytes = Inl ''invalid format''"
    "png_Decode ?lib bmpBytes = Inl ''invalid format''"
    "gif_Decode ?lib bmpBytes = Inl ''gif: bad header''"
    "webp_Decode ?lib bmpBytes = Inl ''invalid format''"
    using no by (simp_all add: demoDecode_def gif_Decode_def)
  show ?thesis
    using sel demo_all_saved(1) [OF o d] n dec by (simp only: simp_thms)
qed

text \<open>
  C7, amended. With \<open>ext\<close> the lower-cased extension of the path, \<open>processImage\<close>
  decodes with the jpeg decoder for \<open>.jpg\<close> and \<open>.jpeg\<close>, the png decoder for
  \<open>.png\<close>, the gif decoder for \<open>.gif\<close>, and the webp decoder for a \<open>.webp\<close> file that
  \<open>selectFile\<close> accepts (only the second version accepts one). Any extension outside
  these falls back to \<open>image.Decode\<close>, which goes by the leading bytes among the
  registered formats: gif, jpeg, png, bmp, tiff and webp (webp in the first version only
  if its import is kept), and fails with \<open>image: unknown format\<close> when none matches. Of a
  GIF only the first image block is decoded: the image used is the first frame, whatever
  follows it in the stream.
\<close>

theorem decode_dispatch:
  assumes "os_Open lib t (selectedFile a) = Inr bs"
  shows "(let ext = ToLower (unicode_ToLower lib) (Ext (selectedFile a));
              run = (\<lambda>dec. processImage v lib a t =
                      (case dec of
                         Inl c \<Rightarrow> (t, Some (DecodeError c))
                       | Inr img \<Rightarrow> writeBundle lib (selectedFile a) img t))
          in (ext = ''.jpg'' \<or> ext = ''.jpeg'' \<longrightarrow> run (jpeg_Decode lib bs))
             \<and> (ext = ''.png'' \<longrightarrow> run (png_Decode lib bs))
             \<and> (ext = ''.gif'' \<longrightarrow> run (gif_Decode lib bs))
             \<and> (ext = ''.webp'' \<and> index (validExts v) ext \<longrightarrow> run (webp_Decode lib bs))
             \<and> (ext \<notin> {''.jpg'', ''.jpeg'', ''.png'', ''.gif'', ''.webp''} \<longrightarrow>
                   run (image_Decode v lib bs))
             \<and> (hasMagic GIF bs \<longrightarrow> image_Decode v lib bs = gif_Decode lib bs)
             \<and> (hasMagic JPEG bs \<longrightarrow> image_Decode v lib bs = jpeg_Decode lib bs)
             \<and> (hasMagic PNG bs \<longrightarrow> image_Decode v lib bs = png_Decode lib bs)
             \<and> (hasMagic BMP bs \<longrightarrow> image_Decode v lib bs = bmp_Decode lib bs)
             \<and> (hasMagic TIFF bs \<longrightarrow> image_Decode v lib bs = tiff_Decode lib bs)
             \<and> (hasMagic WEBP bs \<and> (v = Extended \<or> webp_kept lib) \<longrightarrow>
                   image_Decode v lib bs = webp_Decode lib bs)
             \<and> (hasMagic WEBP bs \<and> v = Baseline \<and> \<not> webp_kept lib \<longrightarrow>
                   image_Decode v lib bs = Inl ''image: unknown format'')
             \<and> ((\<forall>f. \<not> hasMagic f bs) \<longrightarrow> image_Decode v lib bs = Inl ''image: unknown format'')
             \<and> (\<forall>img rest. ext = ''.gif'' \<and> gif_stream lib bs = Inr (Inr img # rest) \<longrightarrow>
                   processImage v lib a t = writeBundle lib (selectedFile a) img t)
             \<and> (\<forall>img rest. hasMagic GIF bs \<and> gif_stream lib bs = Inr (Inr img # rest) \<longrightarrow>
                   image_Decode v lib bs = Inr img))"
proof -
  let ?ext = "ToLower (unicode_ToLower lib) (Ext (selectedFile a))"
  let ?run = "\<lambda>dec. processImage v lib a t =
                      (case dec of
                         Inl c \<Rightarrow> (t, Some (DecodeError c))
                       | Inr img \<Rightarrow> writeBundle lib (selectedFile a) img t)"
  note run = processImage_decoded [OF assms, of v]
  have j: "?ext = ''.jpg'' \<or> ?ext = ''.jpeg'' \<longrightarrow> ?run (jpeg_Decode lib bs)"
    using run by (cases v) auto
  have p: "?ext = ''.png'' \<longrightarrow> ?run (png_Decode lib bs)"
    using run by (cases v) auto
  have g: "?ext = ''.gif'' \<longrightarrow> ?run (gif_Decode lib bs)"
    using run by (cases v) auto
  have w: "?ext = ''.webp'' \<and> index (validExts v) ?ext \<longrightarrow> ?run (webp_Decode lib bs)"
    using run by (cases v) (auto simp: index_def)
  have f: "?ext \<notin> {''.jpg'', ''.jpeg'', ''.png'', ''.gif'', ''.webp''} \<longrightarrow>
      ?run (image_Decode v lib bs)"
    using run by (cases v) auto
  have m: "hasMagic GIF bs \<longrightarrow> image_Decode v lib bs = gif_Decode lib bs"
    "hasMagic JPEG bs \<longrightarrow> image_Decode v lib bs = jpeg_Decode lib bs"
    "hasMagic PNG bs \<longrightarrow> image_Decode v lib bs = png_Decode lib bs"
    "hasMagic BMP bs \<longrightarrow> image_Decode v lib bs = bmp_Decode lib bs"
    "hasMagic TIFF bs \<longrightarrow> image_Decode v lib bs = tiff_Decode lib bs"
    "hasMagic WEBP bs \<and> (v = Extended \<or> webp_kept lib) \<longrightarrow>
       image_Decode v lib bs = webp_Decode lib bs"
  proof -
    have reg: "GIF \<in> set (registered v lib)" "JPEG \<in> set (registered v lib)"
      "PNG \<in> set (registered v lib)" "BMP \<in> set (registered v lib)"
      "TIFF \<in> set (registered v lib)"
      "v = Extended \<or> webp_kept lib \<Longrightarrow> WEBP \<in> set (registered v lib)"
      by (simp_all add: registered_def)
    show "hasMagic GIF bs \<longrightarrow> image_Decode v lib bs = gif_Decode lib bs"
      using image_Decode_magic [OF reg(1)] by simp
    show "hasMagic JPEG bs \<longrightarrow> image_Decode v lib bs = jpeg_Decode lib bs"
      using image_Decode_magic [OF reg(2)] by simp
    show "hasMagic PNG bs \<longrightarrow> image_Decode v lib bs = png_Decode lib bs"
      using image_Decode_magic [OF reg(3)] by simp
    show "hasMagic BMP bs \<longrightarrow> image_Decode v lib bs = bmp_Decode lib bs"
      using image_Decode_magic [OF reg(4)] by simp
    show "hasMagic TIFF bs \<longrightarrow> image_Decode v lib bs = tiff_Decode lib bs"
      using image_Decode_magic [OF reg(5)] by simp
    show "hasMagic WEBP bs \<and> (v = Extended \<or> webp_kept lib) \<longrightarrow>
        image_Decode v lib bs = webp_Decode lib bs"
      using image_Decode_magic [OF reg(6)] by auto
  qed
  have nw: "hasMagic WEBP bs \<and> v = Baseline \<and> \<not> webp_kept lib \<longrightarrow>
      image_Decode v lib bs = Inl ''image: unknown format''"
  proof (intro impI, elim conjE)
    assume h: "hasMagic WEBP bs" and b: "v = Baseline" "\<not> webp_kept lib"
    have "\<And>f. hasMagic f bs \<Longrightarrow> f = WEBP"
      using hasMagic_unique [OF _ h] by blast
    moreover have "WEBP \<notin> set (registered v lib)"
      using b by (simp add: registered_def)
    ultimately have "\<forall>f\<in>set (registered v lib). \<not> hasMagic f bs"
      by blast
    then show "image_Decode v lib bs = Inl ''image: unknown format''"
      by (rule image_Decode_unknown)
  qed
  have u: "(\<forall>f. \<not> hasMagic f bs) \<longrightarrow> image_Decode v lib bs = Inl ''image: unknown format''"
    using image_Decode_unknown [of v lib bs] by blast
  have ff: "\<forall>img rest. ?ext = ''.gif'' \<and> gif_stream lib bs = Inr (Inr img # rest) \<longrightarrow>
      processImage v lib a t = writeBundle lib (selectedFile a) img t"
    using g by (auto simp: gif_Decode_def)
  have fs: "\<forall>img rest. hasMagic GIF bs \<and> gif_stream lib bs = Inr (Inr img # rest) \<longrightarrow>
      image_Decode v lib bs = Inr img"
    using m(1) by (auto simp: gif_Decode_def)
  show ?thesis
    unfolding Let_def using j p g w f m nw u ff fs by (intro conjI)
qed

theorem decode_dispatch_witness:
  "gif_stream (demo [(''ANIM.GIF'', gifBytes)] []) gifBytes
     = Inr [Inr (gifBytes, 0, 0), Inl ''gif: not enough image data'']
   \<and> snd (processImage Baseline (demo [(''ANIM.GIF'', gifBytes)] [])
          (newApp\<lparr>selectedFile := ''ANIM.GIF''\<rparr>) []) = None
   \<and> fst (processImage Baseline (demo [(''ANIM.GIF'', gifBytes)] [])
          (newApp\<lparr>selectedFile := ''ANIM.GIF''\<rparr>) []) ! 1
     = Save (gifBytes, 28, 28) ''ANIM_emote_bundle/ANIM-Discord-Small-28x28.png'' None"
proof -
  let ?lib = "demo [(''ANIM.GIF'', gifBytes)] []"
  let ?a = "newApp\<lparr>selectedFile := ''ANIM.GIF''\<rparr>"
  have o: "os_Open ?lib [] (selectedFile ?a) = Inr gifBytes"
    by (simp add: demoRead_def)
  have s: "gif_stream ?lib gifBytes = Inr [Inr (gifBytes, 0, 0), Inl ''gif: not enough image data'']"
    by (simp add: magic_gif)
  have e: "ToLower (unicode_ToLower ?lib) (Ext (selectedFile ?a)) = ''.gif''"
    by (simp add: ext_lower)
  note th = decode_dispatch [OF o, of Baseline, unfolded Let_def]
  have "\<forall>img rest. ToLower (unicode_ToLower ?lib) (Ext (selectedFile ?a)) = ''.gif''
        \<and> gif_stream ?lib gifBytes = Inr (Inr img # rest) \<longrightarrow>
      processImage Baseline ?lib ?a [] = writeBundle ?lib (selectedFile ?a) img []"
    using th by (elim conjE)
  then have run: "processImage Baseline ?lib ?a [] = writeBundle ?lib (selectedFile ?a) (gifBytes, 0, 0) []"
    using e s by blast
  have b: "writeBundle ?lib ''ANIM.GIF'' (gifBytes, 0, 0) [] =
      ([] @ MkdirAll (bundleDir ''ANIM.GIF'') perm None
          # map (saved ?lib ''ANIM.GIF'' (gifBytes, 0, 0)) emoteSizes, None)"
    by (rule writeBundle_ok) (simp_all add: demo_saves_ok)
  have first: "fst (processImage Baseline ?lib ?a []) ! 1
      = Save (gifBytes, 28, 28) (outputPath ''ANIM.GIF'' (emoteSizes ! 0)) None"
    unfolding run using b by (simp add: emoteSizes_def saved_def resized_def mkSize_def)
  show ?thesis
    using s run b first by (simp add: anim_path)
qed

section \<open>Files named \<open>.webm\<close> (C10)\<close>

text \<open>
  C10. In the second version a path whose lower-cased extension is \<open>.webm\<close> is
  decoded by \<open>image.Decode\<close>, that is by the leading bytes. If they carry the magic of
  a format (png, jpeg, gif and webp among them) and its decoder accepts the file, then,
  when the directory is created and every save succeeds, the run writes the whole bundle:
  the directory, then for each of the eleven entries the image filled to its size, at its
  path. A WebM video starts with the EBML header \<open>1A 45 DF A3\<close>, which is the magic of
  no registered format, so it fails with \<open>failed to decode image: image: unknown format\<close>.
\<close>

theorem webm_is_sniffed:
  assumes "ToLower (unicode_ToLower lib) (Ext (selectedFile a)) = ''.webm''"
    and "os_Open lib t (selectedFile a) = Inr bs"
  shows "(let p = selectedFile a;
              base = baseFilename p;
              dir = Join [Dir p, base @ ''_emote_bundle''];
              fill = (\<lambda>img sz. imaging_Fill lib img (Width sz) (Height sz) Center Lanczos);
              target = (\<lambda>sz. Join [dir, base @ ''-'' @ Platform sz @ ''-'' @ Name sz @ ''-''
                                       @ fmt_d (Width sz) @ ''x'' @ fmt_d (Height sz) @ ''.png'']);
              bundle = (\<lambda>img szs. t @ MkdirAll dir 493 None
                                    # map (\<lambda>sz. Save (fill img sz) (target sz) None) szs)
          in processImage Extended lib a t =
               (case image_Decode Extended lib bs of
                  Inl c \<Rightarrow> (t, Some (DecodeError c))
                | Inr img \<Rightarrow> writeBundle lib p img t)
             \<and> (\<forall>rest. bs = [CHR 0x1A, CHR 0x45, CHR 0xDF, CHR 0xA3] @ rest \<longrightarrow>
                   processImage Extended lib a t = (t, Some (DecodeError ''image: unknown format'')))
             \<and> (\<forall>f img. hasMagic f bs \<and> decoderOf lib f bs = Inr img
                   \<and> os_MkdirAll lib t dir 493 = None
                   \<and> (\<forall>i<length emoteSizes.
                         imaging_Save lib (bundle img (take i emoteSizes))
                           (fill img (emoteSizes ! i)) (target (emoteSizes ! i)) = None) \<longrightarrow>
                   processImage Extended lib a t = (bundle img emoteSizes, None))
             \<and> length emoteSizes = 11
             \<and> decoderOf lib PNG = png_Decode lib \<and> decoderOf lib JPEG = jpeg_Decode lib
             \<and> decoderOf lib GIF = gif_Decode lib \<and> decoderOf lib WEBP = webp_Decode lib)"
proof -
  let ?p = "selectedFile a"
  let ?d = "bundleDir ?p"
  have run: "processImage Extended lib a t =
      (case image_Decode Extended lib bs of
         Inl c \<Rightarrow> (t, Some (DecodeError c))
       | Inr img \<Rightarrow> writeBundle lib ?p img t)"
    using assms by (simp add: processImage_def)
  have webm: "\<forall>rest. bs = [CHR 0x1A, CHR 0x45, CHR 0xDF, CHR 0xA3] @ rest \<longrightarrow>
      processImage Extended lib a t = (t, Some (DecodeError ''image: unknown format''))"
  proof (intro allI impI)
    fix rest
    assume "bs = [CHR 0x1A, CHR 0x45, CHR 0xDF, CHR 0xA3] @ rest"
    then have "\<forall>f\<in>set (registered Extended lib). \<not> hasMagic f bs"
      using webm_no_magic by blast
    then have "image_Decode Extended lib bs = Inl ''image: unknown format''"
      by (rule image_Decode_unknown)
    then show "processImage Extended lib a t = (t, Some (DecodeError ''image: unknown format''))"
      using run by simp
  qed
  have full: "\<forall>f img. hasMagic f bs \<and> decoderOf lib f bs = Inr img
      \<and> os_MkdirAll lib t ?d perm = None
      \<and> (\<forall>i<length emoteSizes. saveAt lib ?p img emoteSizes (t @ [MkdirAll ?d perm None]) i = None) \<longrightarrow>
      processImage Extended lib a t =
        (t @ MkdirAll ?d perm None # map (saved lib ?p img) emoteSizes, None)"
  proof (intro allI impI, elim conjE)
    fix f img
    assume h: "hasMagic f bs" and dc: "decoderOf lib f bs = Inr img"
      and m: "os_MkdirAll lib t ?d perm = None"
      and s: "\<forall>i<length emoteSizes. saveAt lib ?p img emoteSizes (t @ [MkdirAll ?d perm None]) i = None"
    have "f \<in> set (registered Extended lib)"
      by (cases f) (simp_all add: registered_def)
    then have "image_Decode Extended lib bs = Inr img"
      using image_Decode_magic h dc by metis
    then show "processImage Extended lib a t =
        (t @ MkdirAll ?d perm None # map (saved lib ?p img) emoteSizes, None)"
      using run writeBundle_ok [OF m s] by simp
  qed
  have n: "length emoteSizes = 11"
    by (simp add: emoteSizes_def)
  have full': "\<forall>f img. hasMagic f bs \<and> decoderOf lib f bs = Inr img
      \<and> os_MkdirAll lib t (Join [Dir ?p, baseFilename ?p @ ''_emote_bundle'']) 493 = None
      \<and> (\<forall>i<length emoteSizes.
            imaging_Save lib
              (t @ MkdirAll (Join [Dir ?p, baseFilename ?p @ ''_emote_bundle'']) 493 None
                 # map (\<lambda>sz. Save (imaging_Fill lib img (Width sz) (Height sz) Center Lanczos)
                     (Join [Join [Dir ?p, baseFilename ?p @ ''_emote_bundle''],
                            baseFilename ?p @ ''-'' @ Platform sz @ ''-'' @ Name sz @ ''-''
                              @ fmt_d (Width sz) @ ''x'' @ fmt_d (Height sz) @ ''.png'']) None)
                     (take i emoteSizes))
              (imaging_Fill lib img (Width (emoteSizes ! i)) (Height (emoteSizes ! i)) Center Lanczos)
              (Join [Join [Dir ?p, baseFilename ?p @ ''_emote_bundle''],
                     baseFilename ?p @ ''-'' @ Platform (emoteSizes ! i) @ ''-''
                       @ Name (emoteSizes ! i) @ ''-'' @ fmt_d (Width (emoteSizes ! i)) @ ''x''
                       @ fmt_d (Height (emoteSizes ! i)) @ ''.png'']) = None) \<longrightarrow>
      processImage Extended lib a t =
        (t @ MkdirAll (Join [Dir ?p, baseFilename ?p @ ''_emote_bundle'']) 493 None
           # map (\<lambda>sz. Save (imaging_Fill lib img (Width sz) (Height sz) Center Lanczos)
                     (Join [Join [Dir ?p, baseFilename ?p @ ''_emote_bundle''],
                            baseFilename ?p @ ''-'' @ Platform sz @ ''-'' @ Name sz @ ''-''
                              @ fmt_d (Width sz) @ ''x'' @ fmt_d (Height sz) @ ''.png'']) None)
               emoteSizes, None)"
    using full
    unfolding saveAt_def saved_fun resized_def outputPath_def bundleDir_def filename_def perm_def
    by simp
  show ?thesis
    unfolding Let_def
    using run webm full' n by simp
qed

theorem webm_is_sniffed_witness:
  "processImage Extended (demo [(''logo.webm'', pngBytes), (''clip.webm'', webmBytes)] [])
      (newApp\<lparr>selectedFile := ''clip.webm''\<rparr>) [] = ([], Some (DecodeError ''image: unknown format''))
   \<and> processImage Extended (demo [(''logo.webm'', pngBytes), (''clip.webm'', webmBytes)] [])
      (newApp\<lparr>selectedFile := ''logo.webm''\<rparr>) [] =
     ([MkdirAll ''logo_emote_bundle'' 493 None,
       Save (pngBytes, 28, 28) ''logo_emote_bundle/logo-Discord-Small-28x28.png'' None,
       Save (pngBytes, 32, 32) ''logo_emote_bundle/logo-Discord-Medium-32x32.png'' None,
       Save (pngBytes, 48, 48) ''logo_emote_bundle/logo-Discord-Large-48x48.png'' None,
       Save (pngBytes, 128, 128) ''logo_emote_bundle/logo-Discord-Animated-128x128.png'' None,
       Save (pngBytes, 28, 28) ''logo_emote_bundle/logo-Twitch-1.0-28x28.png'' None,
       Save (pngBytes, 56, 56) ''logo_emote_bundle/logo-Twitch-2.0-56x56.png'' None,
       Save (pngBytes, 112, 112) ''logo_emote_bundle/logo-Twitch-3.0-112x112.png'' None,
       Save (pngBytes, 32, 32) ''logo_emote_bundle/logo-7TV-1x-32x32.png'' None,
       Save (pngBytes, 64, 64) ''logo_emote_bundle/logo-7TV-2x-64x64.png'' None,
       Save (pngBytes, 96, 96) ''logo_emote_bundle/logo-7TV-3x-96x96.png'' None,
       Save (pngBytes, 128, 128) ''logo_emote_bundle/logo-7TV-4x-128x128.png'' None],
      None)"
proof -
  let ?lib = "demo [(''logo.webm'', pngBytes), (''clip.webm'', webmBytes)] []"
  let ?clip = "newApp\<lparr>selectedFile := ''clip.webm''\<rparr>"
  let ?logo = "newApp\<lparr>selectedFile := ''logo.webm''\<rparr>"
  have ce: "ToLower (unicode_ToLower ?lib) (Ext (selectedFile ?clip)) = ''.webm''"
    by (simp add: ext_lower)
  have co: "os_Open ?lib [] (selectedFile ?clip) = Inr webmBytes"
    by (simp add: demoRead_def)
  have le: "ToLower (unicode_ToLower ?lib) (Ext (selectedFile ?logo)) = ''.webm''"
    by (simp add: ext_lower)
  have lo: "os_Open ?lib [] (selectedFile ?logo) = Inr pngBytes"
    by (simp add: demoRead_def)
  have w: "webmBytes = [CHR 0x1A, CHR 0x45, CHR 0xDF, CHR 0xA3] @ ''webm''"
    by (simp add: webmBytes_def)
  have 1: "processImage Extended ?lib ?clip [] = ([], Some (DecodeError ''image: unknown format''))"
    using webm_is_sniffed [OF ce co, unfolded Let_def, THEN conjunct2, THEN conjunct1] w by blast
  have b: "baseFilename ''logo.webm'' = ''logo''"
    by (simp add: baseFilename_def Ext_def Base_def isSep_def TrimSuffix_def HasSuffix_def)
  have d: "Join [Dir ''logo.webm'', ''logo_emote_bundle''] = ''logo_emote_bundle''"
    by (simp add: Dir_def Join_def Clean_def isSep_def cleanStep_def)
  note th = webm_is_sniffed [OF le lo, unfolded Let_def, THEN conjunct2, THEN conjunct2, THEN conjunct1,
      rule_format, of PNG "(pngBytes, 0, 0)"]
  have 2: "processImage Extended ?lib ?logo [] =
      ([] @ MkdirAll ''logo_emote_bundle'' 493 None
         # map (\<lambda>sz. Save (pngBytes, Width sz, Height sz)
                   (Join [''logo_emote_bundle'', ''logo'' @ ''-'' @ Platform sz @ ''-'' @ Name sz @ ''-''
                      @ fmt_d (Width sz) @ ''x'' @ fmt_d (Height sz) @ ''.png'']) None) emoteSizes,
       None)"
    using th by (simp add: b d magic_png demoDecode_def)
  show ?thesis
    unfolding 1 2
    by (simp add: emoteSizes_def mkSize_def fmt_d_def dec.simps Join_def Clean_def isSep_def cleanStep_def)
qed

section \<open>Running twice (C9)\<close>

text \<open>
  C9. Run the program on the file system of section \<open>A file system\<close>, from any initial
  state and after any history, and let the first run return no error. Then the bundle
  directory exists and the eleven files exist, under the names the path alone decides. If
  the input still reads the same, a second run returns no error either: \<open>os.MkdirAll\<close>
  finds the directory, returns nil and changes nothing (where \<open>mkdir\<close> alone would fail
  with \<open>file exists\<close>), and each save empties and rewrites the file of the same name. The
  second run makes the same calls with the same results, and leaves the same directories
  and the same set of files.
\<close>

theorem rerun_same_files:
  assumes first: "processImage v (onFS init enc L) a t = (t1, None)"
    and input: "os_Open L t1 (selectedFile a) = os_Open L t (selectedFile a)"
  shows "(let p = selectedFile a;
              base = baseFilename p;
              dir = Join [Dir p, base @ ''_emote_bundle''];
              names = map (\<lambda>sz. Join [dir, base @ ''-'' @ Platform sz @ ''-'' @ Name sz @ ''-''
                                         @ fmt_d (Width sz) @ ''x'' @ fmt_d (Height sz) @ ''.png''])
                          emoteSizes;
              after = fsAfter (unicode_ToLower L) enc init
          in length names = 11 \<and> distinct names
             \<and> written (drop (length t) t1) = names
             \<and> isDir (after t1) (Clean dir)
             \<and> (\<forall>q\<in>set names. isFile (after t1) (Clean q))
             \<and> fs_MkdirAll (after t1) dir = (after t1, None)
             \<and> (\<exists>t2. processImage v (onFS init enc L) a t1 = (t2, None)
                    \<and> drop (length t1) t2 = drop (length t) t1
                    \<and> written (drop (length t1) t2) = names
                    \<and> dirs (after t2) = dirs (after t1)
                    \<and> (\<forall>k. isFile (after t2) k = isFile (after t1) k)))"
proof -
  let ?lib = "onFS init enc L"
  let ?uni = "unicode_ToLower L"
  let ?A = "fsAfter ?uni enc init"
  let ?p = "selectedFile a"
  let ?d = "bundleDir ?p"
  let ?mk = "MkdirAll ?d perm None"
  let ?names = "map (outputPath ?p) emoteSizes"
  obtain bs img where o: "os_Open ?lib t ?p = Inr bs"
    and d: "decodeImage v ?lib (ToLower (unicode_ToLower ?lib) (Ext ?p)) bs = Inr img"
    and m: "os_MkdirAll ?lib t ?d perm = None"
    and loop: "convertSizes ?lib ?p img emoteSizes (t @ [?mk]) = (t1, None)"
    using first
    by (auto simp: processImage_def writeBundle_def Let_def
        split: sum.splits option.splits simp del: onFS_sel)
  have t1: "t1 = (t @ [?mk]) @ map (saved ?lib ?p img) emoteSizes"
    using convertSizes_None [OF loop] .
  have "?A (t @ [?mk]) = fst (fs_MkdirAll (?A t) ?d)"
    by (simp add: fsAfter_snoc)
  moreover have "snd (fs_MkdirAll (?A t) ?d) = None"
    using m by simp
  ultimately have "fs_MkdirAll (?A t) ?d = (?A (t @ [?mk]), None)"
    by (simp add: prod_eq_iff)
  then have dir0: "isDir (?A (t @ [?mk])) (Clean ?d)"
    using fs_MkdirAll_None by blast
  note fr = first_run_loop [OF loop]
  have res1: "\<forall>sz\<in>set emoteSizes. resavable ?uni enc (?A t1) (resized ?lib img sz) (outputPath ?p sz)"
    using fr by blast
  have "dirs (?A t1) = dirs (?A (t @ [?mk]))"
    using fr by blast
  then have dir1: "isDir (?A t1) (Clean ?d)"
    using dir0 isDir_dirs by blast
  have files1: "\<forall>q\<in>set ?names. isFile (?A t1) (Clean q)"
    using res1 resavable_isFile by fastforce
  have mk2: "fs_MkdirAll (?A t1) ?d = (?A t1, None)"
    using dir1 bundleDir_ne by (rule fs_MkdirAll_exists [rotated])
  then have m2: "os_MkdirAll ?lib t1 ?d perm = None"
    by simp
  have st2: "?A (t1 @ [?mk]) = ?A t1"
    using mk2 by (simp add: fsAfter_snoc)
  have "\<forall>sz\<in>set emoteSizes. resavable ?uni enc (?A (t1 @ [?mk])) (resized ?lib img sz) (outputPath ?p sz)"
    using res1 st2 by simp
  note sr = second_run_loop [OF this]
  have o2: "os_Open ?lib t1 ?p = Inr bs"
    using o input by simp
  let ?t2 = "(t1 @ [?mk]) @ map (saved ?lib ?p img) emoteSizes"
  have run2: "processImage v ?lib a t1 = (?t2, None)"
    using o2 d m2 sr by (simp add: processImage_def writeBundle_def del: onFS_sel)
  have same: "drop (length t1) ?t2 = drop (length t) t1"
    using t1 by simp
  have w1: "written (drop (length t) t1) = ?names"
    using t1 by (simp add: written_saved)
  have w2: "written (drop (length t1) ?t2) = ?names"
    by (simp add: written_saved)
  have d2: "dirs (?A ?t2) = dirs (?A t1)"
    using sr st2 by simp
  have f2: "\<forall>k. isFile (?A ?t2) k = isFile (?A t1) k"
    using sr st2 by simp
  have n: "length ?names = 11"
    by (simp add: emoteSizes_def)
  have dn: "distinct ?names"
    by (rule distinct_outputPath)
  have ex: "\<exists>t2. processImage v ?lib a t1 = (t2, None)
      \<and> drop (length t1) t2 = drop (length t) t1
      \<and> written (drop (length t1) t2) = ?names
      \<and> dirs (?A t2) = dirs (?A t1)
      \<and> (\<forall>k. isFile (?A t2) k = isFile (?A t1) k)"
    using run2 same w2 d2 f2 by (intro exI [of _ ?t2]) simp
  have names: "map (\<lambda>sz. Join [Join [Dir ?p, baseFilename ?p @ ''_emote_bundle''],
                    baseFilename ?p @ ''-'' @ Platform sz @ ''-'' @ Name sz @ ''-''
                      @ fmt_d (Width sz) @ ''x'' @ fmt_d (Height sz) @ ''.png'']) emoteSizes
      = ?names"
    by (rule names_outputPath)
  have dir: "Join [Dir ?p, baseFilename ?p @ ''_emote_bundle''] = ?d"
    by (simp add: bundleDir_def)
  show ?thesis
    unfolding Let_def unfolding names unfolding dir
    using n dn w1 dir1 files1 mk2 ex by simp
qed

theorem rerun_same_files_witness:
  "snd (processImage Baseline (onFS demoFS demoEncode (demo [(''cat.png'', pngBytes)] []))
          (newApp\<lparr>selectedFile := ''cat.png''\<rparr>) []) = None
   \<and> snd (processImage Baseline (onFS demoFS demoEncode (demo [(''cat.png'', pngBytes)] []))
          (newApp\<lparr>selectedFile := ''cat.png''\<rparr>)
          (fst (processImage Baseline (onFS demoFS demoEncode (demo [(''cat.png'', pngBytes)] []))
                  (newApp\<lparr>selectedFile := ''cat.png''\<rparr>) []))) = None
   \<and> written (fst (processImage Baseline (onFS demoFS demoEncode (demo [(''cat.png'', pngBytes)] []))
          (newApp\<lparr>selectedFile := ''cat.png''\<rparr>)
          (fst (processImage Baseline (onFS demoFS demoEncode (demo [(''cat.png'', pngBytes)] []))
                  (newApp\<lparr>selectedFile := ''cat.png''\<rparr>) [])))) =
       [''cat_emote_bundle/cat-Discord-Small-28x28.png'',
        ''cat_emote_bundle/cat-Discord-Medium-32x32.png'',
        ''cat_emote_bundle/cat-Discord-Large-48x48.png'',
        ''cat_emote_bundle/cat-Discord-Animated-128x128.png'',
        ''cat_emote_bundle/cat-Twitch-1.0-28x28.png'',
        ''cat_emote_bundle/cat-Twitch-2.0-56x56.png'',
        ''cat_emote_bundle/cat-Twitch-3.0-112x112.png'',
        ''cat_emote_bundle/cat-7TV-1x-32x32.png'',
        ''cat_emote_bundle/cat-7TV-2x-64x64.png'',
        ''cat_emote_bundle/cat-7TV-3x-96x96.png'',
        ''cat_emote_bundle/cat-7TV-4x-128x128.png'']
       @ [''cat_emote_bundle/cat-Discord-Small-28x28.png'',
        ''cat_emote_bundle/cat-Discord-Medium-32x32.png'',
        ''cat_emote_bundle/cat-Discord-Large-48x48.png'',
        ''cat_emote_bundle/cat-Discord-Animated-128x128.png'',
        ''cat_emote_bundle/cat-Twitch-1.0-28x28.png'',
        ''cat_emote_bundle/cat-Twitch-2.0-56x56.png'',
        ''cat_emote_bundle/cat-Twitch-3.0-112x112.png'',
        ''cat_emote_bundle/cat-7TV-1x-32x32.png'',
        ''cat_emote_bundle/cat-7TV-2x-64x64.png'',
        ''cat_emote_bundle/cat-7TV-3x-96x96.png'',
        ''cat_emote_bundle/cat-7TV-4x-128x128.png'']
   \<and> snd (fs_Mkdir (fsAfter (\<lambda>s. s) demoEncode demoFS
            (fst (processImage Baseline (onFS demoFS demoEncode (demo [(''cat.png'', pngBytes)] []))
                    (newApp\<lparr>selectedFile := ''cat.png''\<rparr>) [])))
          ''cat_emote_bundle'') = Some ''file exists''
   \<and> snd (fs_MkdirAll (fsAfter (\<lambda>s. s) demoEncode demoFS
            (fst (processImage Baseline (onFS demoFS demoEncode (demo [(''cat.png'', pngBytes)] []))
                    (newApp\<lparr>selectedFile := ''cat.png''\<rparr>) [])))
          ''cat_emote_bundle'') = None"
proof -
  let ?L = "demo [(''cat.png'', pngBytes)] []"
  let ?lib = "onFS demoFS demoEncode ?L"
  let ?a = "newApp\<lparr>selectedFile := ''cat.png''\<rparr>"
  let ?t1 = "([] @ [MkdirAll ''cat_emote_bundle'' perm None])
        @ map (saved ?lib ''cat.png'' (pngBytes, 0, 0)) emoteSizes"
  let ?A = "fsAfter (\<lambda>s. s) demoEncode demoFS"
  have first: "processImage Baseline ?lib ?a [] = (?t1, None)"
    by (rule demoFS_first)
  have input: "os_Open ?L ?t1 (selectedFile ?a) = os_Open ?L [] (selectedFile ?a)"
    by simp
  note th = rerun_same_files [OF first input, unfolded Let_def]
  have w1: "written ?t1 = map (outputPath ''cat.png'') emoteSizes"
    by (simp add: written_saved)
  have dir: "isDir (?A ?t1) (Clean ''cat_emote_bundle'')"
    using th cat_dir by (simp add: bundleDir_def)
  have c: "Clean ''cat_emote_bundle'' = ''cat_emote_bundle''"
    by (simp add: Clean_def isSep_def cleanStep_def)
  have plain: "snd (fs_Mkdir (?A ?t1) ''cat_emote_bundle'') = Some ''file exists''"
    using dir by (simp add: fs_Mkdir_def c)
  have all: "snd (fs_MkdirAll (?A ?t1) ''cat_emote_bundle'') = None"
    using th cat_dir by (simp add: bundleDir_def)
  from th obtain t2 where r: "processImage Baseline ?lib ?a ?t1 = (t2, None)"
    and same: "drop (length ?t1) t2 = drop (length ([] :: demo_img trace)) ?t1"
    by (elim exE conjE)
  have t2: "t2 = ?t1 @ drop (length ?t1) t2"
  proof -
    obtain bs img where "t2 = ?t1 @ MkdirAll (bundleDir (selectedFile ?a)) perm None
        # map (saved ?lib (selectedFile ?a) img) emoteSizes"
      using processImage_None [OF r] by blast
    then show ?thesis by simp
  qed
  have w2: "written t2 = map (outputPath ''cat.png'') emoteSizes @ map (outputPath ''cat.png'') emoteSizes"
    by (subst t2, subst same) (simp add: written_append w1 written_saved)
  show ?thesis
    unfolding first r fst_conv snd_conv using w2 plain all by (simp add: cat_paths)
qed

end
